theory Spec2Isabelle
  imports Complex_Main
begin

section \<open>Text\<close>

text \<open>
  A JavaScript string is a sequence of UTF-16 code units, and \<open>length\<close>, the regular
  expressions without the \<open>u\<close> flag and \<open>replace\<close> all work on code units. A code unit
  is modelled by its numeric value; the theorems below hold for every list of numbers,
  so in particular for every string. Literals are written \<open>js ''...''\<close>.
\<close>

type_synonym js_string = "nat list"

definition js :: "string \<Rightarrow> js_string" where
  "js s = map of_char s"

text \<open>The character classes \<open>[a-z]\<close>, \<open>[A-Z]\<close>, \<open>[0-9]\<close> and \<open>[a-zA-Z0-9]\<close>.\<close>

definition is_lower :: "nat \<Rightarrow> bool" where
  "is_lower c = (97 \<le> c \<and> c \<le> 122)"

definition is_upper :: "nat \<Rightarrow> bool" where
  "is_upper c = (65 \<le> c \<and> c \<le> 90)"

definition is_digit :: "nat \<Rightarrow> bool" where
  "is_digit c = (48 \<le> c \<and> c \<le> 57)"

definition is_alnum :: "nat \<Rightarrow> bool" where
  "is_alnum c = (is_lower c \<or> is_upper c \<or> is_digit c)"

text \<open>
  The class \<open>\s\<close> of ECMAScript: tab, line feed, vertical tab, form feed, carriage
  return, space, no-break space, the byte order mark, the line and paragraph separators
  and the other code points of category Zs.
\<close>

definition is_space :: "nat \<Rightarrow> bool" where
  "is_space c = (c \<in> {9, 10, 11, 12, 13, 32, 160, 5760, 8232, 8233, 8239, 8287, 12288, 65279}
                 \<or> (8192 \<le> c \<and> c \<le> 8202))"

text \<open>
  Decimal notation of a natural number, as a template literal prints it (a number below
  \<open>10^21\<close>; from there on JavaScript prints an exponent).
\<close>

fun dec :: "nat \<Rightarrow> js_string" where
  "dec n = (if n < 10 then [48 + n] else dec (n div 10) @ [48 + n mod 10])"

declare dec.simps [simp del]

text \<open>\<open>startsWith\<close> and \<open>includes\<close> of a string.\<close>

fun starts_with :: "js_string \<Rightarrow> js_string \<Rightarrow> bool" where
  "starts_with s [] = True"
| "starts_with [] (p # ps) = False"
| "starts_with (c # cs) (p # ps) = (c = p \<and> starts_with cs ps)"

fun string_includes :: "js_string \<Rightarrow> js_string \<Rightarrow> bool" where
  "string_includes [] sub = (sub = [])"
| "string_includes (c # cs) sub = (starts_with (c # cs) sub \<or> string_includes cs sub)"

text \<open>
  The exceptions of the program, by kind. \<open>SpecialTokenError\<close> is the error that
  \<open>encode\<close> of the tiktoken package throws, with its default arguments, on a text that
  contains a special token of the vocabulary.
\<close>

datatype js_error = IOError | SyntaxError | TypeError | HttpError | McpError | SpecialTokenError

section \<open>token-counter.ts: the encoder cell\<close>

text \<open>
  The module keeps one variable, \<open>encoder\<close>, holding the tiktoken object or \<open>null\<close>.
  The tiktoken package is not part of the repository: an encoder object is modelled by
  the number that identifies it (\<open>get_encoding\<close> returns a new object at every call),
  and the state records how many objects were created and on which ones \<open>free()\<close>
  ran. What \<open>encode\<close> does for the \<open>cl100k_base\<close> vocabulary is a parameter
  \<open>encode\<close> of the model: a function from the text to the token sequence that the call
  returns, or to the exception that it throws. \<open>countTokens\<close> has no \<open>try\<close>: an exception
  of \<open>enc.encode(text)\<close> leaves it, after \<open>getEncoder\<close> has filled the cell.
\<close>

record counter_state =
  encoder :: "nat option"
  created :: nat
  released :: "nat list"

definition initial_state :: counter_state where
  "initial_state = \<lparr> encoder = None, created = 0, released = [] \<rparr>"

definition getEncoder :: "counter_state \<Rightarrow> nat \<times> counter_state" where
  "getEncoder s =
     (case encoder s of
        None \<Rightarrow> (created s, s\<lparr> encoder := Some (created s), created := Suc (created s) \<rparr>)
      | Some enc \<Rightarrow> (enc, s))"

type_synonym encoding = "js_string \<Rightarrow> js_error + nat list"

definition countTokens ::
  "encoding \<Rightarrow> js_string \<Rightarrow> counter_state \<Rightarrow> (js_error + nat) \<times> counter_state" where
  "countTokens encode text s =
     (case getEncoder s of
        (enc, s') \<Rightarrow>
          (case encode text of
             Inl e \<Rightarrow> (Inl e, s')
           | Inr tokens \<Rightarrow> (Inr (length tokens), s')))"

definition freeEncoder :: "counter_state \<Rightarrow> counter_state" where
  "freeEncoder s =
     (case encoder s of
        Some enc \<Rightarrow> s\<lparr> encoder := None, released := released s @ [enc] \<rparr>
      | None \<Rightarrow> s)"

text \<open>
  The module exports \<open>countTokens\<close>, \<open>countToolTokens\<close> (which calls \<open>countTokens\<close> on the
  serialised tool) and \<open>freeEncoder\<close>. A client of the module is a sequence of such calls;
  a client that catches the exception of a call goes on with the cell as the call left it.
\<close>

datatype api_call = CountTokens js_string | FreeEncoder

fun run_call :: "encoding \<Rightarrow> api_call \<Rightarrow> counter_state \<Rightarrow> counter_state" where
  "run_call encode (CountTokens text) s = snd (countTokens encode text s)"
| "run_call encode FreeEncoder s = freeEncoder s"

definition run_calls ::
  "encoding \<Rightarrow> api_call list \<Rightarrow> counter_state \<Rightarrow> counter_state" where
  "run_calls encode calls s = fold (run_call encode) calls s"

text \<open>
  The invariant of the cell: the stored encoder was created and not yet released, and
  every created encoder is either the stored one or was released exactly once.
\<close>

definition cell_ok :: "counter_state \<Rightarrow> bool" where
  "cell_ok s =
     (distinct (released s @ (case encoder s of None \<Rightarrow> [] | Some enc \<Rightarrow> [enc]))
      \<and> set (released s @ (case encoder s of None \<Rightarrow> [] | Some enc \<Rightarrow> [enc])) = {..<created s})"

text \<open>
  An encoder that returns one token for each code unit and never throws. It stands for
  the vocabulary where a theorem about every encoder is used at a concrete one.
\<close>

definition codeunit_encode :: encoding where
  "codeunit_encode text = Inr text"



section \<open>The heuristic estimator of the live benchmark\<close>

text \<open>
  \<open>countTokens\<close> of the live benchmark (the three copies of the file have the same text).
  The class \<open>[{}\[\]:,"]\<close> of structural characters, by code unit.
\<close>

definition is_structural :: "nat \<Rightarrow> bool" where
  "is_structural c = (c \<in> {123, 125, 91, 93, 58, 44, 34})"

text \<open>
  \<open>replace(/([a-z])([A-Z])/g, '$1 $2')\<close>: a global replace scans from left to right and
  resumes after the two code units of a match.
\<close>

fun camel_split :: "js_string \<Rightarrow> js_string" where
  "camel_split (a # b # rest) =
     (if is_lower a \<and> is_upper b then a # 32 # b # camel_split rest
      else a # camel_split (b # rest))"
| "camel_split rest = rest"

text \<open>\<open>replace(/[^a-zA-Z0-9\s]/g, ' ')\<close>.\<close>

definition blank_non_alnum :: "js_string \<Rightarrow> js_string" where
  "blank_non_alnum text = map (\<lambda>c. if is_alnum c \<or> is_space c then c else 32) text"

text \<open>
  \<open>split(/\s+/)\<close>: the pieces between maximal runs of white space; a run at the start or
  at the end leaves an empty piece there, and the empty text splits into one empty piece.
  \<open>cur\<close> is the piece being read.
\<close>

function split_from :: "js_string \<Rightarrow> js_string \<Rightarrow> js_string list" where
  "split_from cur [] = [cur]"
| "split_from cur (c # cs) =
     (if is_space c then cur # split_from [] (dropWhile is_space cs)
      else split_from (cur @ [c]) cs)"
  by pat_completeness auto
termination
  by (relation "measure (\<lambda>(cur, cs). length cs)")
     (auto simp: length_dropWhile_le less_Suc_eq_le)

definition split_ws :: "js_string \<Rightarrow> js_string list" where
  "split_ws text = split_from [] text"

text \<open>
  The numbers of JavaScript are doubles; the model computes in the reals, and
  \<open>Math.ceil\<close> is \<open>\<lceil>_\<rceil>\<close>. For the lengths that a string can have the two agree: a
  double holds \<open>S * 0.5\<close> and \<open>length / 4\<close> exactly, and the rounding of \<open>W * 1.3\<close> does not
  move the sum across an integer (the sum is a multiple of one tenth, and where it is an
  integer \<open>W * 1.3\<close> is a multiple of 6.5, which the product gives exactly).
\<close>

definition countTokens_live :: "js_string \<Rightarrow> int" where
  "countTokens_live text =
     (let structuralChars = length (filter is_structural text);
          words = filter (\<lambda>w. length w > 0)
                    (split_ws (blank_non_alnum (camel_split text)));
          estimate = \<lceil>real structuralChars * 0.5 + real (length words) * 1.3\<rceil>;
          simpleEstimate = \<lceil>real (length text) / 4\<rceil>
      in \<lceil>(real_of_int estimate + real_of_int simpleEstimate) / 2\<rceil>)"

subsection \<open>The formula of the specification\<close>

text \<open>
  \<open>spec_S\<close> is the number of occurrences of the characters \<open>{ } [ ] : ,\<close> and the double
  quote (code unit 34). \<open>spec_W\<close> is the number of word fragments, counted by their first
  characters: a fragment begins at every letter or digit that stands first in the text,
  or follows a character that is not a letter or digit, or is an uppercase letter that
  follows a lowercase one. Letters are those of the source: \<open>a\<close> to \<open>z\<close> and \<open>A\<close> to \<open>Z\<close>.
\<close>

definition spec_S :: "js_string \<Rightarrow> nat" where
  "spec_S text = length (filter (\<lambda>i. text ! i \<in> set (js ''{}[]:,'' @ [34])) [0..<length text])"

definition spec_W :: "js_string \<Rightarrow> nat" where
  "spec_W text =
     length (filter
       (\<lambda>i. is_alnum (text ! i)
            \<and> (i = 0 \<or> \<not> is_alnum (text ! (i - 1))
                 \<or> (is_lower (text ! (i - 1)) \<and> is_upper (text ! i))))
       [0..<length text])"

text \<open>
  Two counters for the proof that the pipeline of \<open>countTokens\<close> counts the same
  fragments: \<open>word_starts\<close> counts the runs without white space (\<open>inw\<close>: a run is being
  read), \<open>starts p\<close> the fragment starts after a code unit \<open>p\<close>, and \<open>prev_at\<close> is the code
  unit before position \<open>i\<close>.
\<close>

fun word_starts :: "bool \<Rightarrow> js_string \<Rightarrow> nat" where
  "word_starts inw [] = 0"
| "word_starts inw (c # cs) =
     (if is_space c then word_starts False cs
      else (if inw then 0 else 1) + word_starts True cs)"

fun starts :: "nat \<Rightarrow> js_string \<Rightarrow> nat" where
  "starts p [] = 0"
| "starts p (c # cs) =
     (if is_alnum c \<and> (\<not> is_alnum p \<or> (is_lower p \<and> is_upper c)) then 1 else 0)
     + starts c cs"

definition prev_at :: "nat \<Rightarrow> js_string \<Rightarrow> nat \<Rightarrow> nat" where
  "prev_at p s i = (if i = 0 then p else s ! (i - 1))"

section \<open>JSON values and objects\<close>

text \<open>
  The values that \<open>JSON.parse\<close> yields and \<open>JSON.stringify\<close> prints. Numbers are the
  integers (the counts and limits that occur in the payloads and schemas; a document
  with a fraction is outside the model). An object is
  the sequence of its own properties in the order in which \<open>Object.entries\<close>,
  \<open>Object.assign\<close> and \<open>JSON.stringify\<close> enumerate them.
\<close>

datatype json =
    JNull
  | JBool bool
  | JNum int
  | JStr js_string
  | JArr "json list"
  | JObj "(js_string \<times> json) list"

text \<open>The truth value that \<open>||\<close>, \<open>&&\<close>, \<open>?:\<close> and \<open>if\<close> give to a value.\<close>

fun truthy :: "json \<Rightarrow> bool" where
  "truthy JNull = False"
| "truthy (JBool b) = b"
| "truthy (JNum n) = (n \<noteq> 0)"
| "truthy (JStr s) = (s \<noteq> [])"
| "truthy (JArr xs) = True"
| "truthy (JObj ps) = True"

text \<open>The truth value of an optional string: \<open>undefined\<close> and the empty string are false.\<close>

fun truthy_string :: "js_string option \<Rightarrow> bool" where
  "truthy_string None = False"
| "truthy_string (Some s) = (s \<noteq> [])"

text \<open>
  The number that a decimal numeral denotes, and the keys that are array indices: the
  canonical numerals of the integers from 0 to \<open>2^32 - 2\<close>. An object enumerates its array
  indices first, in ascending order, and then its other keys in the order of their
  creation.
\<close>

definition undec :: "js_string \<Rightarrow> nat" where
  "undec k = foldl (\<lambda>a c. 10 * a + (c - 48)) 0 k"

definition is_array_index :: "js_string \<Rightarrow> bool" where
  "is_array_index k =
     (k \<noteq> [] \<and> list_all is_digit k \<and> (k = [48] \<or> hd k \<noteq> 48) \<and> undec k < 4294967295)"

definition obj_get :: "(js_string \<times> 'v) list \<Rightarrow> js_string \<Rightarrow> 'v option" where
  "obj_get obj k = map_of obj k"

fun insert_index :: "js_string \<Rightarrow> 'v \<Rightarrow> (js_string \<times> 'v) list \<Rightarrow> (js_string \<times> 'v) list" where
  "insert_index k v [] = [(k, v)]"
| "insert_index k v (p # ps) =
     (if is_array_index (fst p) \<and> undec (fst p) < undec k then p # insert_index k v ps
      else (k, v) # p # ps)"

text \<open>
  The assignment \<open>obj[k] = v\<close> on an object created by \<open>{}\<close>: an existing property keeps
  its place, a new array index goes to its place among the indices, any other new key
  goes last. The key \<open>__proto__\<close> is the accessor of \<open>Object.prototype\<close>: assigning to it
  creates no property.
\<close>

definition obj_set :: "(js_string \<times> 'v) list \<Rightarrow> js_string \<Rightarrow> 'v \<Rightarrow> (js_string \<times> 'v) list" where
  "obj_set obj k v =
     (if k = js ''__proto__'' then obj
      else if obj_get obj k \<noteq> None then map (\<lambda>p. if fst p = k then (k, v) else p) obj
      else if is_array_index k then insert_index k v obj
      else obj @ [(k, v)])"

text \<open>
  \<open>Object.assign(target, source)\<close>: the own enumerable properties of the source, in
  their order. An array or a string has its elements under the indices; a number or a
  boolean has none.
\<close>

fun own_entries :: "json \<Rightarrow> (js_string \<times> json) list" where
  "own_entries (JObj ps) = ps"
| "own_entries (JArr xs) = zip (map dec [0..<length xs]) xs"
| "own_entries (JStr s) = zip (map dec [0..<length s]) (map (\<lambda>c. JStr [c]) s)"
| "own_entries v = []"

definition object_assign :: "(js_string \<times> json) list \<Rightarrow> json \<Rightarrow> (js_string \<times> json) list" where
  "object_assign target source = fold (\<lambda>p obj. obj_set obj (fst p) (snd p)) (own_entries source) target"

text \<open>
  \<open>[...new Set(values)]\<close>: the values in the order of their first occurrence. A set
  compares strings, numbers and booleans by value and objects by identity; the arrays
  and objects of a parsed document are all different objects.
\<close>

fun same_value_zero :: "json \<Rightarrow> json \<Rightarrow> bool" where
  "same_value_zero (JArr xs) b = False"
| "same_value_zero (JObj ps) b = False"
| "same_value_zero a b = (a = b)"

fun set_values :: "json list \<Rightarrow> json list \<Rightarrow> json list" where
  "set_values seen [] = []"
| "set_values seen (x # xs) =
     (if list_ex (\<lambda>y. same_value_zero y x) seen then set_values seen xs
      else x # set_values (seen @ [x]) xs)"

subsection \<open>JSON.stringify with an indentation of two spaces\<close>

definition hex_digit :: "nat \<Rightarrow> nat" where
  "hex_digit d = (if d < 10 then 48 + d else 87 + d)"

definition unicode_escape :: "nat \<Rightarrow> js_string" where
  "unicode_escape c =
     [92, 117, hex_digit (c div 4096 mod 16), hex_digit (c div 256 mod 16),
      hex_digit (c div 16 mod 16), hex_digit (c mod 16)]"

definition is_lead_surrogate :: "nat \<Rightarrow> bool" where
  "is_lead_surrogate c = (55296 \<le> c \<and> c \<le> 56319)"

definition is_trail_surrogate :: "nat \<Rightarrow> bool" where
  "is_trail_surrogate c = (56320 \<le> c \<and> c \<le> 57343)"

text \<open>
  One code unit inside a quoted string: the short escapes, \<open>\u\<close> escapes for the other
  control characters and for a surrogate that stands alone, the code unit itself otherwise.
\<close>

definition quote_unit :: "nat \<Rightarrow> js_string" where
  "quote_unit c =
     (if c = 8 then [92, 98]
      else if c = 9 then [92, 116]
      else if c = 10 then [92, 110]
      else if c = 12 then [92, 102]
      else if c = 13 then [92, 114]
      else if c = 34 then [92, 34]
      else if c = 92 then [92, 92]
      else if c < 32 \<or> is_lead_surrogate c \<or> is_trail_surrogate c then unicode_escape c
      else [c])"

fun quote_body :: "js_string \<Rightarrow> js_string" where
  "quote_body (c # d # ds) =
     (if is_lead_surrogate c \<and> is_trail_surrogate d then c # d # quote_body ds
      else quote_unit c @ quote_body (d # ds))"
| "quote_body [c] = quote_unit c"
| "quote_body [] = []"

definition quote_json :: "js_string \<Rightarrow> js_string" where
  "quote_json s = [34] @ quote_body s @ [34]"

text \<open>
  A number as \<open>JSON.stringify\<close> prints it, for the numbers of the model: an integer of
  magnitude below \<open>10^21\<close> is printed in decimal notation, digit by digit. From \<open>10^21\<close> on
  JavaScript prints an exponent (\<open>1e+21\<close>), and a schema may hold a fraction; such
  numbers are outside the model, and no tool that the program itself builds
  (\<open>META_TOOLS\<close>, the synthetic catalogs) holds one.
\<close>

definition number_to_string :: "int \<Rightarrow> js_string" where
  "number_to_string n = (if n < 0 then [45] @ dec (nat (- n)) else dec (nat n))"

definition join :: "js_string \<Rightarrow> js_string list \<Rightarrow> js_string" where
  "join sep parts = (case parts of [] \<Rightarrow> [] | p # ps \<Rightarrow> p @ concat (map (\<lambda>q. sep @ q) ps))"

text \<open>\<open>stringify n v\<close> prints \<open>v\<close> at nesting depth \<open>n\<close>.\<close>

fun stringify :: "nat \<Rightarrow> json \<Rightarrow> js_string" where
  "stringify n JNull = js ''null''"
| "stringify n (JBool b) = (if b then js ''true'' else js ''false'')"
| "stringify n (JNum i) = number_to_string i"
| "stringify n (JStr s) = quote_json s"
| "stringify n (JArr xs) =
     (if xs = [] then js ''[]''
      else js ''['' @ [10] @ replicate (2 * Suc n) 32
           @ join ([44, 10] @ replicate (2 * Suc n) 32) (map (stringify (Suc n)) xs)
           @ [10] @ replicate (2 * n) 32 @ js '']'')"
| "stringify n (JObj ps) =
     (if ps = [] then js ''{}''
      else js ''{'' @ [10] @ replicate (2 * Suc n) 32
           @ join ([44, 10] @ replicate (2 * Suc n) 32)
               (map (\<lambda>p. quote_json (fst p) @ js '': '' @ stringify (Suc n) (snd p)) ps)
           @ [10] @ replicate (2 * n) 32 @ js ''}'')"

definition JSON_stringify :: "json \<Rightarrow> js_string" where
  "JSON_stringify v = stringify 0 v"

section \<open>benchmark.ts: tools and catalogs\<close>

record MCPTool =
  name :: js_string
  description :: js_string
  inputSchema :: "(js_string \<times> json) list"

text \<open>
  \<open>countToolTokens\<close> of token-counter.ts: the tool is printed by
  \<open>JSON.stringify(tool, null, 2)\<close>, its keys in the order \<open>name\<close>, \<open>description\<close>,
  \<open>inputSchema\<close> in which every tool of the program is built, and the text is counted.
\<close>

definition tool_json :: "MCPTool \<Rightarrow> json" where
  "tool_json tool =
     JObj [(js ''name'', JStr (name tool)),
           (js ''description'', JStr (description tool)),
           (js ''inputSchema'', JObj (inputSchema tool))]"

definition countToolTokens ::
  "encoding \<Rightarrow> MCPTool \<Rightarrow> counter_state \<Rightarrow> (js_error + nat) \<times> counter_state" where
  "countToolTokens encode tool s = countTokens encode (JSON_stringify (tool_json tool)) s"

definition META_TOOLS :: "MCPTool list" where
  "META_TOOLS =
     [\<lparr> name = js ''list_services'',
        description = js ''List all connected services/projects in the organization. Returns service names, slugs, tool counts, and sample tools.'',
        inputSchema =
          [(js ''type'', JStr (js ''object'')),
           (js ''properties'', JObj []),
           (js ''required'', JArr [])] \<rparr>,
      \<lparr> name = js ''search_tools'',
        description = js ''Search for tools by keyword across all connected services. Returns matching tools with names, descriptions, and project info.'',
        inputSchema =
          [(js ''type'', JStr (js ''object'')),
           (js ''properties'', JObj
              [(js ''query'', JObj
                  [(js ''type'', JStr (js ''string'')),
                   (js ''description'', JStr (js ''Search query to match against tool names and descriptions''))]),
               (js ''limit'', JObj
                  [(js ''type'', JStr (js ''number'')),
                   (js ''description'', JStr (js ''Maximum number of results to return (default: 20)''))])]),
           (js ''required'', JArr [JStr (js ''query'')])] \<rparr>,
      \<lparr> name = js ''describe_tools'',
        description = js ''Get detailed information and input schemas for specific tools. Use after search_tools to get full schemas before executing.'',
        inputSchema =
          [(js ''type'', JStr (js ''object'')),
           (js ''properties'', JObj
              [(js ''tools'', JObj
                  [(js ''type'', JStr (js ''array'')),
                   (js ''items'', JObj [(js ''type'', JStr (js ''string''))]),
                   (js ''description'', JStr (js ''Array of tool names to describe (use namespaced format: project-slug/tool-name)''))])]),
           (js ''required'', JArr [JStr (js ''tools'')])] \<rparr>,
      \<lparr> name = js ''execute_tool'',
        description = js ''Execute a tool from any connected service in the organization. Use namespaced format: '' @ [34] @ js ''project-slug/tool-name'' @ [34] @ js ''.'',
        inputSchema =
          [(js ''type'', JStr (js ''object'')),
           (js ''properties'', JObj
              [(js ''tool'', JObj
                  [(js ''type'', JStr (js ''string'')),
                   (js ''description'', JStr (js ''The namespaced tool name (e.g., '' @ [34] @ js ''linear/create_issue'' @ [34] @ js '', '' @ [34] @ js ''github/create_pr'' @ [34] @ js '')''))]),
               (js ''arguments'', JObj
                  [(js ''type'', JStr (js ''object'')),
                   (js ''additionalProperties'', JBool True),
                   (js ''description'', JStr (js ''Arguments to pass to the tool''))])]),
           (js ''required'', JArr [JStr (js ''tool'')])] \<rparr>]"

subsection \<open>The catalog types\<close>

record OpenAPIParameter =
  param_name :: js_string
  param_in :: js_string
  param_required :: "bool option"
  param_schema :: "(js_string \<times> json) list option"
  param_description :: "js_string option"

record MediaType =
  schema :: "(js_string \<times> json) list option"

record RequestBody =
  body_required :: "bool option"
  content :: "(js_string \<times> MediaType) list option"

record OpenAPIOperation =
  operationId :: "js_string option"
  summary :: "js_string option"
  op_description :: "js_string option"
  parameters :: "OpenAPIParameter list option"
  requestBody :: "RequestBody option"

record Info =
  title :: js_string
  info_description :: "js_string option"
  version :: js_string

text \<open>
  \<open>paths\<close> is \<open>Object.entries(spec.paths)\<close>, each path with the \<open>Object.entries\<close> of its
  methods: the order in which \<open>openApiToMcpTools\<close> reads them.
\<close>

record OpenAPISpec =
  openapi :: js_string
  info :: Info
  paths :: "(js_string \<times> (js_string \<times> OpenAPIOperation) list) list"

subsection \<open>openApiToMcpTools\<close>

text \<open>
  \<open>toUpperCase\<close> on the letters \<open>a\<close> to \<open>z\<close>, which is all of it for the method names of
  HTTP; other code units are left as they are. JavaScript also maps the letters beyond
  ASCII (and may lengthen the string, as for the sharp s): a key of a path item with such a
  letter is outside the model. The function is applied to the method in the fallback
  description of a tool and to the five method names of the synthetic catalogs, so the
  names and the number of the tools do not depend on it.
\<close>

definition toUpperCase :: "js_string \<Rightarrow> js_string" where
  "toUpperCase s = map (\<lambda>c. if is_lower c then c - 32 else c) s"

text \<open>\<open>path.replace(/[^a-zA-Z0-9]/g, '_')\<close>.\<close>

definition underscore_non_alnum :: "js_string \<Rightarrow> js_string" where
  "underscore_non_alnum path = map (\<lambda>c. if is_alnum c then c else 95) path"

definition tool_name :: "js_string \<Rightarrow> js_string \<Rightarrow> OpenAPIOperation \<Rightarrow> js_string" where
  "tool_name path method op =
     (if truthy_string (operationId op) then the (operationId op)
      else method @ js ''_'' @ underscore_non_alnum path)"

definition tool_description :: "js_string \<Rightarrow> js_string \<Rightarrow> OpenAPIOperation \<Rightarrow> js_string" where
  "tool_description path method op =
     (if truthy_string (op_description op) then the (op_description op)
      else if truthy_string (summary op) then the (summary op)
      else toUpperCase method @ js '' '' @ path)"

text \<open>The value of \<open>param.schema?.k\<close>, when it is there and true.\<close>

definition schema_field :: "OpenAPIParameter \<Rightarrow> js_string \<Rightarrow> json option" where
  "schema_field param k =
     (case param_schema param of
        None \<Rightarrow> None
      | Some sch \<Rightarrow>
          (case obj_get sch k of
             None \<Rightarrow> None
           | Some v \<Rightarrow> if truthy v then Some v else None))"

definition param_property :: "OpenAPIParameter \<Rightarrow> json" where
  "param_property param =
     JObj ([(js ''type'', (case schema_field param (js ''type'') of
                             Some t \<Rightarrow> t | None \<Rightarrow> JStr (js ''string''))),
            (js ''description'',
               JStr (if truthy_string (param_description param) then the (param_description param)
                     else param_name param @ js '' parameter''))]
           @ (case schema_field param (js ''enum'') of
                Some e \<Rightarrow> [(js ''enum'', e)] | None \<Rightarrow> []))"

text \<open>
  The two accumulators of the loop body, \<open>properties\<close> and \<open>required\<close>, as a pair: first
  the parameters, then the schema of the \<open>application/json\<close> request body.
\<close>

definition add_parameter ::
  "OpenAPIParameter \<Rightarrow> (js_string \<times> json) list \<times> json list
     \<Rightarrow> (js_string \<times> json) list \<times> json list" where
  "add_parameter param acc =
     (obj_set (fst acc) (param_name param) (param_property param),
      (if param_required param = Some True then snd acc @ [JStr (param_name param)] else snd acc))"

definition add_parameters ::
  "OpenAPIOperation \<Rightarrow> (js_string \<times> json) list \<times> json list
     \<Rightarrow> (js_string \<times> json) list \<times> json list" where
  "add_parameters op acc =
     (case parameters op of None \<Rightarrow> acc | Some ps \<Rightarrow> fold add_parameter ps acc)"

definition json_body_schema :: "OpenAPIOperation \<Rightarrow> (js_string \<times> json) list option" where
  "json_body_schema op =
     (case requestBody op of
        None \<Rightarrow> None
      | Some body \<Rightarrow>
          (case content body of
             None \<Rightarrow> None
           | Some c \<Rightarrow>
               (case obj_get c (js ''application/json'') of
                  None \<Rightarrow> None
                | Some jsonContent \<Rightarrow> schema jsonContent)))"

definition add_request_body ::
  "OpenAPIOperation \<Rightarrow> (js_string \<times> json) list \<times> json list
     \<Rightarrow> (js_string \<times> json) list \<times> json list" where
  "add_request_body op acc =
     (case json_body_schema op of
        None \<Rightarrow> acc
      | Some sch \<Rightarrow>
          ((case obj_get sch (js ''properties'') of
              None \<Rightarrow> fst acc
            | Some ps \<Rightarrow> if truthy ps then object_assign (fst acc) ps else fst acc),
           (case obj_get sch (js ''required'') of
              Some (JArr rs) \<Rightarrow> snd acc @ rs
            | _ \<Rightarrow> snd acc)))"

definition operation_tool :: "js_string \<Rightarrow> js_string \<Rightarrow> OpenAPIOperation \<Rightarrow> MCPTool" where
  "operation_tool path method op =
     (let acc = add_request_body op (add_parameters op ([], []))
      in \<lparr> name = tool_name path method op,
           description = tool_description path method op,
           inputSchema =
             [(js ''type'', JStr (js ''object'')),
              (js ''properties'', JObj (fst acc)),
              (js ''required'', JArr (set_values [] (snd acc)))] \<rparr>)"

text \<open>The two loops; a key \<open>parameters\<close> among the methods is skipped.\<close>

definition openApiToMcpTools :: "OpenAPISpec \<Rightarrow> MCPTool list" where
  "openApiToMcpTools spec =
     concat (map (\<lambda>entry.
        map (\<lambda>m. operation_tool (fst entry) (fst m) (snd m))
          (filter (\<lambda>m. fst m \<noteq> js ''parameters'') (snd entry)))
       (paths spec))"

subsection \<open>generateSyntheticSpec\<close>

definition pathTemplates :: "js_string \<Rightarrow> js_string list" where
  "pathTemplates resource =
     [js ''/'' @ resource,
      js ''/'' @ resource @ js ''/{id}'',
      js ''/'' @ resource @ js ''/{id}/details'',
      js ''/'' @ resource @ js ''/{id}/actions'',
      js ''/'' @ resource @ js ''/search'']"

definition methods :: "js_string list" where
  "methods = [js ''get'', js ''post'', js ''put'', js ''patch'', js ''delete'']"

definition synthetic_operation ::
  "js_string \<Rightarrow> js_string \<Rightarrow> nat \<Rightarrow> js_string \<Rightarrow> OpenAPIOperation" where
  "synthetic_operation method resource pathIndex path =
     \<lparr> operationId = Some (method @ js ''_'' @ resource @ js ''_'' @ dec pathIndex),
       summary = Some (toUpperCase method @ js '' operation for '' @ resource),
       op_description =
         Some (js ''Performs a '' @ method @ js '' operation on the '' @ resource @ js '' resource.''),
       parameters =
         Some (if string_includes path (js ''{id}'')
               then [\<lparr> param_name = js ''id'', param_in = js ''path'', param_required = Some True,
                       param_schema = Some [(js ''type'', JStr (js ''string''))],
                       param_description = None \<rparr>]
               else []),
       requestBody =
         (if method = js ''post'' \<or> method = js ''put'' \<or> method = js ''patch''
          then Some \<lparr> body_required = Some True,
                      content = Some
                        [(js ''application/json'',
                          \<lparr> schema = Some
                              [(js ''type'', JStr (js ''object'')),
                               (js ''properties'', JObj
                                  [(js ''name'', JObj [(js ''type'', JStr (js ''string''))]),
                                   (js ''description'', JObj [(js ''type'', JStr (js ''string''))]),
                                   (js ''status'', JObj
                                      [(js ''type'', JStr (js ''string'')),
                                       (js ''enum'', JArr [JStr (js ''active''), JStr (js ''inactive'')])])]),
                               (js ''required'', JArr [JStr (js ''name'')])] \<rparr>)] \<rparr>
          else None) \<rparr>"

text \<open>
  The body of the loop for the index \<open>i\<close>: the path gets an empty object of methods if it
  has none, and the operation is stored under its method.
\<close>

definition synthetic_step ::
  "nat \<Rightarrow> (js_string \<times> (js_string \<times> OpenAPIOperation) list) list
     \<Rightarrow> (js_string \<times> (js_string \<times> OpenAPIOperation) list) list" where
  "synthetic_step i ps =
     (let resource = js ''resource'' @ dec (i div 5);
          pathIndex = i mod 5;
          path = pathTemplates resource ! pathIndex;
          ps1 = (if obj_get ps path = None then obj_set ps path [] else ps);
          method = methods ! (i mod length methods)
      in (case obj_get ps1 path of
            None \<Rightarrow> ps1
          | Some ms \<Rightarrow>
              obj_set ps1 path
                (obj_set ms method (synthetic_operation method resource pathIndex path))))"

definition generateSyntheticSpec :: "nat \<Rightarrow> OpenAPISpec" where
  "generateSyntheticSpec endpointCount =
     \<lparr> openapi = js ''3.0.3'',
       info = \<lparr> title = js ''Synthetic API ('' @ dec endpointCount @ js '' endpoints)'',
                info_description = None,
                version = js ''1.0.0'' \<rparr>,
       paths = fold synthetic_step [0..<endpointCount] [] \<rparr>"

text \<open>
  The path and the method that the loop of \<open>generateSyntheticSpec\<close> computes for the
  index \<open>i\<close>, and the (path, verb) pairs of a catalog in the order of its entries.
\<close>

definition synthetic_path :: "nat \<Rightarrow> js_string" where
  "synthetic_path i = pathTemplates (js ''resource'' @ dec (i div 5)) ! (i mod 5)"

definition synthetic_method :: "nat \<Rightarrow> js_string" where
  "synthetic_method i = methods ! (i mod length methods)"

definition path_verb_pairs ::
  "(js_string \<times> (js_string \<times> OpenAPIOperation) list) list \<Rightarrow> (js_string \<times> js_string) list" where
  "path_verb_pairs ps = concat (map (\<lambda>entry. map (\<lambda>m. (fst entry, fst m)) (snd entry)) ps)"

definition path_suffix :: "nat \<Rightarrow> js_string" where
  "path_suffix k = [[], js ''/{id}'', js ''/{id}/details'', js ''/{id}/actions'', js ''/search''] ! k"

text \<open>The state of the loop after \<open>n\<close> rounds: one entry for each index, in order.\<close>

definition synthetic_entry :: "nat \<Rightarrow> js_string \<times> (js_string \<times> OpenAPIOperation) list" where
  "synthetic_entry i =
     (synthetic_path i,
      [(synthetic_method i,
        synthetic_operation (synthetic_method i) (js ''resource'' @ dec (i div 5)) (i mod 5)
          (synthetic_path i))])"

subsection \<open>The name of a tool in the words of the specification\<close>

text \<open>
  The triples that the normalizer processes, and the name it is to synthesize: the verb,
  an underscore, and the path with every character that is not a letter or digit
  replaced by an underscore.
\<close>

definition operation_triples ::
  "OpenAPISpec \<Rightarrow> (js_string \<times> js_string \<times> OpenAPIOperation) list" where
  "operation_triples spec =
     concat (map (\<lambda>entry.
        map (\<lambda>m. (fst entry, fst m, snd m))
          (filter (\<lambda>m. fst m \<noteq> js ''parameters'') (snd entry)))
       (paths spec))"

definition spec_synthesized_name :: "js_string \<Rightarrow> js_string \<Rightarrow> js_string" where
  "spec_synthesized_name path method =
     method @ [95] @ map (\<lambda>c. if is_lower c \<or> is_upper c \<or> is_digit c then c else 95) path"

text \<open>A catalog of one operation, whose \<open>operationId\<close> is the empty string.\<close>

definition empty_id_catalog :: OpenAPISpec where
  "empty_id_catalog =
     \<lparr> openapi = js ''3.0.3'',
       info = \<lparr> title = js ''Users'', info_description = None, version = js ''1.0.0'' \<rparr>,
       paths =
         [(js ''/users/{id}'',
           [(js ''get'',
             \<lparr> operationId = Some [],
               summary = None,
               op_description = None,
               parameters = None,
               requestBody = None \<rparr>)])] \<rparr>"

section \<open>benchmark.ts: runBenchmark\<close>

record BenchmarkResult =
  scenario :: js_string
  projectCount :: nat
  totalTools :: nat
  metaToolsTokens :: nat
  fullExpansionTokens :: nat
  tokensSaved :: int
  percentageSaved :: real
  costSavedPerReq :: real
  monthlySaved :: real

definition COST_PER_MILLION_TOKENS :: real where
  "COST_PER_MILLION_TOKENS = 3.0"

definition MONTHLY_REQUESTS_PER_USER :: real where
  "MONTHLY_REQUESTS_PER_USER = 1000"

text \<open>
  The loop \<open>sum += countToolTokens(tool)\<close> over a list of tools, from a sum and a state of
  the encoder cell: the \<open>reduce\<close> over \<open>META_TOOLS\<close> and the inner loop over the tools of
  a catalog. Nothing catches an exception of \<open>countToolTokens\<close>: the loop ends with it.
\<close>

fun add_tool_tokens ::
  "encoding \<Rightarrow> MCPTool list \<Rightarrow> nat \<Rightarrow> counter_state \<Rightarrow> (js_error + nat) \<times> counter_state" where
  "add_tool_tokens encode [] acc s = (Inr acc, s)"
| "add_tool_tokens encode (tool # tools) acc s =
     (case countToolTokens encode tool s of
        (Inl e, s') \<Rightarrow> (Inl e, s')
      | (Inr n, s') \<Rightarrow> add_tool_tokens encode tools (acc + n) s')"

text \<open>
  The catalogs reach \<open>runBenchmark\<close> with the static type \<open>OpenAPISpec\<close>, which the loader
  gives to whatever \<open>JSON.parse\<close> returned (\<open>as OpenAPISpec\<close> checks nothing). A document
  is modelled as one of that type, or as one that has \<open>info\<close> and no \<open>paths\<close>; on the
  latter \<open>Object.entries(spec.paths)\<close> in \<open>openApiToMcpTools\<close> throws a \<open>TypeError\<close>.
  Documents that are ill-typed in another way are outside the model.
\<close>

datatype document = Catalog OpenAPISpec | NoPaths Info

fun document_tools :: "document \<Rightarrow> js_error + MCPTool list" where
  "document_tools (Catalog spec) = Inr (openApiToMcpTools spec)"
| "document_tools (NoPaths i) = Inl TypeError"

text \<open>
  The loop over the catalogs, from \<open>totalTools\<close>, \<open>fullExpansionTokens\<close> and the cell.
\<close>

fun add_catalogs ::
  "encoding \<Rightarrow> (js_string \<times> document) list \<Rightarrow> nat \<Rightarrow> nat \<Rightarrow> counter_state
     \<Rightarrow> (js_error + nat \<times> nat) \<times> counter_state" where
  "add_catalogs encode [] cnt full s = (Inr (cnt, full), s)"
| "add_catalogs encode (entry # specs) cnt full s =
     (case document_tools (snd entry) of
        Inl e \<Rightarrow> (Inl e, s)
      | Inr tools \<Rightarrow>
          (case add_tool_tokens encode tools full s of
             (Inl e, s') \<Rightarrow> (Inl e, s')
           | (Inr full', s') \<Rightarrow> add_catalogs encode specs (cnt + length tools) full' s'))"

definition runBenchmark ::
  "encoding \<Rightarrow> js_string \<Rightarrow> (js_string \<times> document) list \<Rightarrow> counter_state
     \<Rightarrow> (js_error + BenchmarkResult) \<times> counter_state" where
  "runBenchmark encode scenarioName specs s =
     (case add_tool_tokens encode META_TOOLS 0 s of
        (Inl e, s1) \<Rightarrow> (Inl e, s1)
      | (Inr meta, s1) \<Rightarrow>
          (case add_catalogs encode specs 0 0 s1 of
             (Inl e, s2) \<Rightarrow> (Inl e, s2)
           | (Inr (cnt, full), s2) \<Rightarrow>
               (let saved = int full - int meta;
                    percentage = (if full > 0 then (real_of_int saved / real full) * 100 else 0);
                    perReq = (real_of_int saved / 1000000) * COST_PER_MILLION_TOKENS;
                    monthly = perReq * MONTHLY_REQUESTS_PER_USER
                in (Inr \<lparr> scenario = scenarioName,
                       projectCount = length specs,
                       totalTools = cnt,
                       metaToolsTokens = meta,
                       fullExpansionTokens = full,
                       tokensSaved = saved,
                       percentageSaved = percentage,
                       costSavedPerReq = perReq,
                       monthlySaved = monthly \<rparr>, s2))))"

text \<open>
  The same sums without the cell: the number of tokens of a tool, of a list of tools and
  of a sequence of catalogs (with the number of their tools), each one the exception of
  the first step that throws if there is one; and the record that \<open>runBenchmark\<close> builds
  from the sums.
\<close>

definition tool_tokens :: "encoding \<Rightarrow> MCPTool \<Rightarrow> js_error + nat" where
  "tool_tokens encode tool =
     (case encode (JSON_stringify (tool_json tool)) of
        Inl e \<Rightarrow> Inl e
      | Inr tokens \<Rightarrow> Inr (length tokens))"

fun tools_cost :: "encoding \<Rightarrow> MCPTool list \<Rightarrow> js_error + nat" where
  "tools_cost encode [] = Inr 0"
| "tools_cost encode (tool # tools) =
     (case tool_tokens encode tool of
        Inl e \<Rightarrow> Inl e
      | Inr n \<Rightarrow> (case tools_cost encode tools of Inl e \<Rightarrow> Inl e | Inr m \<Rightarrow> Inr (n + m)))"

fun catalogs_cost :: "encoding \<Rightarrow> (js_string \<times> document) list \<Rightarrow> js_error + nat \<times> nat" where
  "catalogs_cost encode [] = Inr (0, 0)"
| "catalogs_cost encode (entry # specs) =
     (case document_tools (snd entry) of
        Inl e \<Rightarrow> Inl e
      | Inr tools \<Rightarrow>
          (case tools_cost encode tools of
             Inl e \<Rightarrow> Inl e
           | Inr f \<Rightarrow>
               (case catalogs_cost encode specs of
                  Inl e \<Rightarrow> Inl e
                | Inr (c, g) \<Rightarrow> Inr (length tools + c, f + g))))"

definition benchmark_record :: "js_string \<Rightarrow> nat \<Rightarrow> nat \<Rightarrow> nat \<Rightarrow> nat \<Rightarrow> BenchmarkResult" where
  "benchmark_record sc n cnt meta full =
     \<lparr> scenario = sc,
       projectCount = n,
       totalTools = cnt,
       metaToolsTokens = meta,
       fullExpansionTokens = full,
       tokensSaved = int full - int meta,
       percentageSaved =
         (if full > 0 then (real_of_int (int full - int meta) / real full) * 100 else 0),
       costSavedPerReq = (real_of_int (int full - int meta) / 1000000) * COST_PER_MILLION_TOKENS,
       monthlySaved =
         (real_of_int (int full - int meta) / 1000000) * COST_PER_MILLION_TOKENS
           * MONTHLY_REQUESTS_PER_USER \<rparr>"

text \<open>The tools of the documents of a sequence that have \<open>paths\<close>.\<close>

definition catalog_tools :: "(js_string \<times> document) list \<Rightarrow> MCPTool list" where
  "catalog_tools specs =
     concat (map (\<lambda>entry. case snd entry of Catalog spec \<Rightarrow> openApiToMcpTools spec
                                             | NoPaths i \<Rightarrow> []) specs)"

definition is_catalog :: "document \<Rightarrow> bool" where
  "is_catalog d = (case d of Catalog spec \<Rightarrow> True | NoPaths i \<Rightarrow> False)"

text \<open>
  A catalog of four operations that normalizes to the four tools of \<open>META_TOOLS\<close>.
\<close>

definition meta_catalog :: OpenAPISpec where
  "meta_catalog =
     \<lparr> openapi = js ''3.0.3'',
       info = \<lparr> title = js ''Meta'', info_description = None, version = js ''1.0.0'' \<rparr>,
       paths =
         [(js ''/services'',
           [(js ''get'',
             \<lparr> operationId = Some (js ''list_services''),
               summary = None,
               op_description = Some (js ''List all connected services/projects in the organization. Returns service names, slugs, tool counts, and sample tools.''),
               parameters = None,
               requestBody = None \<rparr>)]),
          (js ''/tools/search'',
           [(js ''get'',
             \<lparr> operationId = Some (js ''search_tools''),
               summary = None,
               op_description = Some (js ''Search for tools by keyword across all connected services. Returns matching tools with names, descriptions, and project info.''),
               parameters = Some
                 [\<lparr> param_name = js ''query'', param_in = js ''query'', param_required = Some True,
                     param_schema = Some [(js ''type'', JStr (js ''string''))],
                     param_description = Some (js ''Search query to match against tool names and descriptions'') \<rparr>,
                  \<lparr> param_name = js ''limit'', param_in = js ''query'', param_required = None,
                     param_schema = Some [(js ''type'', JStr (js ''number''))],
                     param_description = Some (js ''Maximum number of results to return (default: 20)'') \<rparr>],
               requestBody = None \<rparr>)]),
          (js ''/tools/describe'',
           [(js ''post'',
             \<lparr> operationId = Some (js ''describe_tools''),
               summary = None,
               op_description = Some (js ''Get detailed information and input schemas for specific tools. Use after search_tools to get full schemas before executing.''),
               parameters = None,
               requestBody = Some
                 \<lparr> body_required = Some True,
                   content = Some
                     [(js ''application/json'',
                       \<lparr> schema = Some
                           [(js ''type'', JStr (js ''object'')),
                            (js ''properties'', JObj
                               [(js ''tools'', JObj
                                   [(js ''type'', JStr (js ''array'')),
                                    (js ''items'', JObj [(js ''type'', JStr (js ''string''))]),
                                    (js ''description'', JStr (js ''Array of tool names to describe (use namespaced format: project-slug/tool-name)''))])]),
                            (js ''required'', JArr [JStr (js ''tools'')])] \<rparr>)] \<rparr> \<rparr>)]),
          (js ''/tools/execute'',
           [(js ''post'',
             \<lparr> operationId = Some (js ''execute_tool''),
               summary = None,
               op_description = Some (js ''Execute a tool from any connected service in the organization. Use namespaced format: '' @ [34] @ js ''project-slug/tool-name'' @ [34] @ js ''.''),
               parameters = None,
               requestBody = Some
                 \<lparr> body_required = Some True,
                   content = Some
                     [(js ''application/json'',
                       \<lparr> schema = Some
                           [(js ''type'', JStr (js ''object'')),
                            (js ''properties'', JObj
                               [(js ''tool'', JObj
                                   [(js ''type'', JStr (js ''string'')),
                                    (js ''description'', JStr (js ''The namespaced tool name (e.g., '' @ [34] @ js ''linear/create_issue'' @ [34] @ js '', '' @ [34] @ js ''github/create_pr'' @ [34] @ js '')''))]),
                                (js ''arguments'', JObj
                                   [(js ''type'', JStr (js ''object'')),
                                    (js ''additionalProperties'', JBool True),
                                    (js ''description'', JStr (js ''Arguments to pass to the tool''))])]),
                            (js ''required'', JArr [JStr (js ''tool'')])] \<rparr>)] \<rparr> \<rparr>)])] \<rparr>"

section \<open>benchmark.ts: loading the sample catalogs and the scenarios of main\<close>

text \<open>
  The directory \<open>sample-specs\<close> as the loader meets it: what \<open>readdirSync\<close> returns or
  throws, and for each file name the document that \<open>readFileSync\<close>, \<open>JSON.parse\<close> and the
  read of \<open>spec.info.title\<close> yield, or the exception that the first failing one of them
  throws (a file that is missing or cannot be read, a text that is not JSON, a document
  without \<open>info\<close>). The loader reads nothing else of the document: one without \<open>paths\<close>
  is pushed like any other.
\<close>

record sample_dir =
  readdirSync :: "js_error + js_string list"
  load_file :: "js_string \<Rightarrow> js_error + document"

fun document_info :: "document \<Rightarrow> Info" where
  "document_info (Catalog spec) = info spec"
| "document_info (NoPaths i) = i"

text \<open>The line that the \<open>catch\<close> block writes to \<open>console.error\<close>.\<close>

datatype warning = CouldNotLoadSampleSpecs

definition ends_with :: "js_string \<Rightarrow> js_string \<Rightarrow> bool" where
  "ends_with s suffix = starts_with (rev s) (rev suffix)"

text \<open>
  The loop over the files, inside the \<open>try\<close> block: an exception leaves the loop for the
  \<open>catch\<close> block, which warns; the function then returns the catalogs pushed so far.
\<close>

fun load_files ::
  "(js_string \<Rightarrow> js_error + document) \<Rightarrow> js_string list \<Rightarrow> (js_string \<times> document) list
     \<Rightarrow> (js_string \<times> document) list \<times> warning list" where
  "load_files load [] specs = (specs, [])"
| "load_files load (file # files) specs =
     (case load file of
        Inl e \<Rightarrow> (specs, [CouldNotLoadSampleSpecs])
      | Inr spec \<Rightarrow> load_files load files (specs @ [(title (document_info spec), spec)]))"

definition loadSampleSpecs :: "sample_dir \<Rightarrow> (js_string \<times> document) list \<times> warning list" where
  "loadSampleSpecs dir =
     (case readdirSync dir of
        Inl e \<Rightarrow> ([], [CouldNotLoadSampleSpecs])
      | Inr files \<Rightarrow>
          load_files (load_file dir) (filter (\<lambda>f. ends_with f (js ''.json'')) files) [])"

text \<open>
  The scenarios of \<open>main\<close>, in the order in which it runs them: each with its name and
  its catalogs.
\<close>

definition synthetic_services :: "nat \<Rightarrow> nat \<Rightarrow> nat \<Rightarrow> (js_string \<times> document) list" where
  "synthetic_services n base step =
     map (\<lambda>i. (js ''Service '' @ dec (i + 1), Catalog (generateSyntheticSpec (base + i * step))))
       [0..<n]"

definition scenarios ::
  "(js_string \<times> document) list \<Rightarrow> (js_string \<times> (js_string \<times> document) list) list" where
  "scenarios sampleSpecs =
     map (\<lambda>spec. (js ''Single API ('' @ fst spec @ js '')'', [spec])) sampleSpecs
     @ (if length sampleSpecs \<ge> 2 then [(js ''Two APIs'', take 2 sampleSpecs)] else [])
     @ (if length sampleSpecs \<ge> 3 then [(js ''Three APIs (typical org)'', take 3 sampleSpecs)] else [])
     @ [(js ''Medium org (5 APIs)'',
           take 3 sampleSpecs
           @ [(js ''Service A'', Catalog (generateSyntheticSpec 50)),
              (js ''Service B'', Catalog (generateSyntheticSpec 40))]),
        (js ''Large org (10 APIs)'', sampleSpecs @ synthetic_services 7 20 5),
        (js ''Enterprise (20 APIs)'', sampleSpecs @ synthetic_services 17 25 3)]"

text \<open>
  The calls of \<open>runBenchmark\<close>, each result pushed to \<open>results\<close>. \<open>main\<close> has no \<open>try\<close>: an
  exception of a call ends it.
\<close>

fun run_scenarios ::
  "encoding \<Rightarrow> (js_string \<times> (js_string \<times> document) list) list \<Rightarrow> BenchmarkResult list
     \<Rightarrow> counter_state \<Rightarrow> (js_error + BenchmarkResult list) \<times> counter_state" where
  "run_scenarios encode [] results s = (Inr results, s)"
| "run_scenarios encode (sc # scs) results s =
     (case runBenchmark encode (fst sc) (snd sc) s of
        (Inl e, s') \<Rightarrow> (Inl e, s')
      | (Inr r, s') \<Rightarrow> run_scenarios encode scs (results @ [r]) s')"

text \<open>
  \<open>main\<close>: the results handed to \<open>printResults\<close>, or the exception that ends the run
  before; the warnings written on the way; and the encoder cell at the end, after the
  final \<open>freeEncoder\<close> when the run reaches it. The module starts with an empty cell.
  Printing counts the four meta-tools once more in two of the three formats, as every
  scenario did before; the cell holds an encoder by then, so printing leaves it as it
  is.
\<close>

definition main ::
  "encoding \<Rightarrow> sample_dir \<Rightarrow> (js_error + BenchmarkResult list) \<times> warning list \<times> counter_state" where
  "main encode dir =
     (case loadSampleSpecs dir of
        (sampleSpecs, warnings) \<Rightarrow>
          (case run_scenarios encode (scenarios sampleSpecs) [] initial_state of
             (Inl e, s) \<Rightarrow> (Inl e, warnings, s)
           | (Inr results, s) \<Rightarrow> (Inr results, warnings, freeEncoder s)))"

text \<open>The results of a list of scenarios, without the cell.\<close>

fun scenario_results ::
  "encoding \<Rightarrow> (js_string \<times> (js_string \<times> document) list) list
     \<Rightarrow> js_error + BenchmarkResult list" where
  "scenario_results encode [] = Inr []"
| "scenario_results encode (sc # scs) =
     (case fst (runBenchmark encode (fst sc) (snd sc) initial_state) of
        Inl e \<Rightarrow> Inl e
      | Inr r \<Rightarrow>
          (case scenario_results encode scs of Inl e \<Rightarrow> Inl e | Inr rs \<Rightarrow> Inr (r # rs)))"

subsection \<open>The fair comparison of printTerminal\<close>

text \<open>
  The block of \<open>printTerminal\<close> that prints the fair comparison: it takes the first result
  with more than 100 tools, if there is one, and prints for it the two totals and their
  difference. Nothing is computed for the other results.
\<close>

record FairReport =
  fair_scenario :: js_string
  metaWorkflowTotal :: nat
  fullWorkflowTotal :: nat
  fair_savings :: int

definition searchDescribeOverhead :: nat where
  "searchDescribeOverhead = 300"

definition printTerminal_fair :: "BenchmarkResult list \<Rightarrow> FairReport option" where
  "printTerminal_fair results =
     (case find (\<lambda>r. totalTools r > 100) results of
        None \<Rightarrow> None
      | Some largeOrg \<Rightarrow>
          Some \<lparr> fair_scenario = scenario largeOrg,
                 metaWorkflowTotal = metaToolsTokens largeOrg * 3 + searchDescribeOverhead,
                 fullWorkflowTotal = fullExpansionTokens largeOrg,
                 fair_savings =
                   int (fullExpansionTokens largeOrg)
                   - int (metaToolsTokens largeOrg * 3 + searchDescribeOverhead) \<rparr>)"

subsection \<open>The catalogs of a directory\<close>

text \<open>
  The files that the loader reads, whether a file is available, and the catalog of a
  file as the loader pushes it. \<open>broken_first_dir\<close> is a directory of two documents, in
  the sorted order in which \<open>readdirSync\<close> lists them, of which the first is corrupt.
  \<open>no_paths_dir\<close> is a directory of one document, which has \<open>info\<close> and no \<open>paths\<close>.
\<close>

definition json_files :: "sample_dir \<Rightarrow> js_string list" where
  "json_files dir =
     (case readdirSync dir of
        Inl e \<Rightarrow> []
      | Inr files \<Rightarrow> filter (\<lambda>f. ends_with f (js ''.json'')) files)"

definition available :: "sample_dir \<Rightarrow> js_string \<Rightarrow> bool" where
  "available dir f = (case load_file dir f of Inl e \<Rightarrow> False | Inr spec \<Rightarrow> True)"

definition catalog_of :: "sample_dir \<Rightarrow> js_string \<Rightarrow> (js_string \<times> document) list" where
  "catalog_of dir f =
     (case load_file dir f of
        Inl e \<Rightarrow> []
      | Inr spec \<Rightarrow> [(title (document_info spec), spec)])"

definition listing_failed :: "sample_dir \<Rightarrow> bool" where
  "listing_failed dir = (case readdirSync dir of Inl e \<Rightarrow> True | Inr files \<Rightarrow> False)"

definition broken_first_dir :: sample_dir where
  "broken_first_dir =
     \<lparr> readdirSync = Inr [js ''broken.json'', js ''meta.json''],
       load_file =
         (\<lambda>f. if f = js ''meta.json'' then Inr (Catalog meta_catalog) else Inl SyntaxError) \<rparr>"

definition no_paths_dir :: sample_dir where
  "no_paths_dir =
     \<lparr> readdirSync = Inr [js ''petstore.json''],
       load_file =
         (\<lambda>f. Inr (NoPaths \<lparr> title = js ''Petstore'', info_description = None,
                                version = js ''1.0.0'' \<rparr>)) \<rparr>"

section \<open>The live benchmark\<close>

definition META_TOOLS_TOKENS :: int where
  "META_TOOLS_TOKENS = 426"

text \<open>
  The payloads of the three meta-tools, as the interfaces of the source declare them.
\<close>

record ServiceInfo =
  service_name :: js_string
  slug :: js_string
  toolCount :: int
  sampleTools :: "js_string list"

record ListServicesResult =
  services :: "ServiceInfo list"
  services_total :: int

record FoundTool =
  found_name :: js_string
  found_description :: js_string
  found_project :: js_string

record SearchToolsResult =
  found_tools :: "FoundTool list"
  found_total :: int

record DescribedTool =
  described_name :: js_string
  described_description :: js_string
  described_inputSchema :: "(js_string \<times> json) list"
  described_project :: js_string

record DescribeToolsResult =
  described_tools :: "DescribedTool list"
  notFound :: "js_string list"

text \<open>
  \<open>JSON.parse(text) as T\<close> for the three interfaces: the value of the text, or the
  \<open>SyntaxError\<close> of \<open>JSON.parse\<close>. The cast is not checked by the source; a text that parses
  to a value outside the interface is outside the model. The parser is a parameter.
\<close>

record json_parser =
  parse_ListServices :: "js_string \<Rightarrow> js_error + ListServicesResult"
  parse_SearchTools :: "js_string \<Rightarrow> js_error + SearchToolsResult"
  parse_DescribeTools :: "js_string \<Rightarrow> js_error + DescribeToolsResult"

text \<open>
  The endpoint as \<open>MCPClient\<close> meets it: for each of its three methods the result, or
  the exception that \<open>request\<close> throws (a response that is not ok, or an error object in
  the response). For \<open>tools/list\<close> the result is given by the names of the tools, for
  \<open>tools/call\<close> by the texts of the items of \<open>content\<close>.
\<close>

record mcp_server =
  initialize :: "js_error + unit"
  listTools :: "js_error + js_string list"
  callTool :: "js_string \<Rightarrow> json \<Rightarrow> js_error + js_string list"

text \<open>\<open>raw.content[0]?.text || '{}'\<close>.\<close>

definition first_text :: "js_string list \<Rightarrow> js_string" where
  "first_text texts =
     (case texts of [] \<Rightarrow> js ''{}'' | t # ts \<Rightarrow> if t = [] then js ''{}'' else t)"

text \<open>
  \<open>url.match(/\/org\/([^/?]+)/)?.[1] || 'unknown'\<close>: the first place where \<open>/org/\<close> is
  followed by a character other than \<open>/\<close> and \<open>?\<close>, and the run of such characters there.
\<close>

fun match_org :: "js_string \<Rightarrow> js_string option" where
  "match_org [] = None"
| "match_org (c # cs) =
     (if starts_with (c # cs) (js ''/org/'')
         \<and> takeWhile (\<lambda>d. d \<noteq> 47 \<and> d \<noteq> 63) (drop 5 (c # cs)) \<noteq> []
      then Some (takeWhile (\<lambda>d. d \<noteq> 47 \<and> d \<noteq> 63) (drop 5 (c # cs)))
      else match_org cs)"

datatype recommendation =
    StronglyRecommended
  | Recommended
  | SlightlyBetter
  | FullExpansionMayBeBetter

record ServicesSummary =
  services_count :: int
  services_names :: "js_string list"

record ToolsSummary =
  tools_total :: int
  perService :: "(js_string \<times> int) list"

record TokenMeasurements =
  listServicesResponse :: int
  searchToolsResponse :: int
  describeToolsResponse :: int
  metaToolDefinitions :: int
  fullExpansionEstimate :: int

record FairComparison =
  metaToolsWorkflow :: int
  fullExpansion :: int
  difference :: int
  fair_percentageSaved :: real
  recommendation :: recommendation

text \<open>The result, without its time stamp.\<close>

record LiveBenchmarkResult =
  orgSlug :: js_string
  services_summary :: ServicesSummary
  tools_summary :: ToolsSummary
  tokenMeasurements :: TokenMeasurements
  fairComparison :: FairComparison

text \<open>
  What follows the three calls: the summary of the services, the estimate of the full
  expansion, the fair comparison and the result.
\<close>

definition live_result ::
  "js_string \<Rightarrow> ListServicesResult \<Rightarrow> int \<Rightarrow> int \<Rightarrow> int \<Rightarrow> LiveBenchmarkResult" where
  "live_result url listServicesData listServicesTokens searchToolsTokens describeToolsTokens =
     (let serviceNames = map service_name (services listServicesData);
          toolsPerService =
            fold (\<lambda>service obj. obj_set obj (service_name service) (toolCount service))
              (services listServicesData) [];
          totalTools' = sum_list (map toolCount (services listServicesData));
          avgTokensPerTool = 140;
          estimate = totalTools' * avgTokensPerTool;
          workflow =
            META_TOOLS_TOKENS * 3 + listServicesTokens + searchToolsTokens + describeToolsTokens;
          diff = estimate - workflow;
          percentage =
            (if estimate > 0 then (real_of_int diff / real_of_int estimate) * 100 else 0);
          advice =
            (if percentage > 80 then StronglyRecommended
             else if percentage > 50 then Recommended
             else if percentage > 0 then SlightlyBetter
             else FullExpansionMayBeBetter)
      in \<lparr> orgSlug = (case match_org url of Some g \<Rightarrow> g | None \<Rightarrow> js ''unknown''),
           services_summary =
             \<lparr> services_count = services_total listServicesData,
               services_names = serviceNames \<rparr>,
           tools_summary = \<lparr> tools_total = totalTools', perService = toolsPerService \<rparr>,
           tokenMeasurements =
             \<lparr> listServicesResponse = listServicesTokens,
               searchToolsResponse = searchToolsTokens,
               describeToolsResponse = describeToolsTokens,
               metaToolDefinitions = META_TOOLS_TOKENS,
               fullExpansionEstimate = estimate \<rparr>,
           fairComparison =
             \<lparr> metaToolsWorkflow = workflow,
               fullExpansion = estimate,
               difference = diff,
               fair_percentageSaved = percentage,
               recommendation = advice \<rparr> \<rparr>)"

text \<open>
  \<open>runLiveBenchmark\<close>: the session is initialized, the tools are listed (a missing
  meta-tool is only logged), and the three meta-tools are called in turn, each response
  being parsed and its text counted by the heuristic estimator. The first exception ends
  the run. The token only authenticates the requests.
\<close>

definition runLiveBenchmark ::
  "json_parser \<Rightarrow> mcp_server \<Rightarrow> js_string \<Rightarrow> js_string \<Rightarrow> js_error + LiveBenchmarkResult" where
  "runLiveBenchmark parser server url token =
     (case initialize server of Inl e \<Rightarrow> Inl e | Inr u \<Rightarrow>
      case listTools server of Inl e \<Rightarrow> Inl e | Inr toolNames \<Rightarrow>
      case callTool server (js ''list_services'') (JObj []) of Inl e \<Rightarrow> Inl e
      | Inr listServicesRaw \<Rightarrow>
      case parse_ListServices parser (first_text listServicesRaw) of Inl e \<Rightarrow> Inl e
      | Inr listServicesData \<Rightarrow>
      case callTool server (js ''search_tools'')
             (JObj [(js ''query'', JStr (js ''create'')), (js ''limit'', JNum 50)]) of
        Inl e \<Rightarrow> Inl e
      | Inr searchToolsRaw \<Rightarrow>
      case parse_SearchTools parser (first_text searchToolsRaw) of Inl e \<Rightarrow> Inl e
      | Inr searchToolsData \<Rightarrow>
      case callTool server (js ''describe_tools'')
             (JObj [(js ''tools'',
                JArr (map (\<lambda>t. JStr (found_name t)) (take 5 (found_tools searchToolsData))))]) of
        Inl e \<Rightarrow> Inl e
      | Inr describeToolsRaw \<Rightarrow>
      case parse_DescribeTools parser (first_text describeToolsRaw) of Inl e \<Rightarrow> Inl e
      | Inr describeToolsData \<Rightarrow>
          Inr (live_result url listServicesData
                 (countTokens_live (first_text listServicesRaw))
                 (countTokens_live (first_text searchToolsRaw))
                 (countTokens_live (first_text describeToolsRaw))))"

subsection \<open>An organization with one service\<close>

definition dq :: "string \<Rightarrow> js_string" where
  "dq s = [34] @ js s @ [34]"

definition linear_services_text :: js_string where
  "linear_services_text =
     js ''{'' @ dq ''services'' @ js '':[{'' @ dq ''name'' @ js '':'' @ dq ''Linear'' @ js '',''
     @ dq ''slug'' @ js '':'' @ dq ''linear'' @ js '','' @ dq ''toolCount'' @ js '':9,''
     @ dq ''sampleTools'' @ js '':[]}],'' @ dq ''total'' @ js '':1}''"

definition linear_search_text :: js_string where
  "linear_search_text =
     js ''{'' @ dq ''tools'' @ js '':[{'' @ dq ''name'' @ js '':'' @ dq ''linear/create_issue''
     @ js '','' @ dq ''description'' @ js '':'' @ dq ''Create an issue'' @ js '',''
     @ dq ''project'' @ js '':'' @ dq ''linear'' @ js ''}],'' @ dq ''total'' @ js '':1}''"

definition linear_describe_text :: js_string where
  "linear_describe_text =
     js ''{'' @ dq ''tools'' @ js '':[{'' @ dq ''name'' @ js '':'' @ dq ''linear/create_issue''
     @ js '','' @ dq ''description'' @ js '':'' @ dq ''Create an issue'' @ js '',''
     @ dq ''inputSchema'' @ js '':{'' @ dq ''type'' @ js '':'' @ dq ''object'' @ js ''},''
     @ dq ''project'' @ js '':'' @ dq ''linear'' @ js ''}],'' @ dq ''notFound'' @ js '':[]}''"

text \<open>The parser on the three texts of the example; any other text is not JSON here.\<close>

definition linear_parser :: json_parser where
  "linear_parser =
     \<lparr> parse_ListServices = (\<lambda>t.
         if t = linear_services_text
         then Inr \<lparr> services =
                      [\<lparr> service_name = js ''Linear'', slug = js ''linear'', toolCount = 9,
                          sampleTools = [] \<rparr>],
                    services_total = 1 \<rparr>
         else Inl SyntaxError),
       parse_SearchTools = (\<lambda>t.
         if t = linear_search_text
         then Inr \<lparr> found_tools =
                      [\<lparr> found_name = js ''linear/create_issue'',
                          found_description = js ''Create an issue'',
                          found_project = js ''linear'' \<rparr>],
                    found_total = 1 \<rparr>
         else Inl SyntaxError),
       parse_DescribeTools = (\<lambda>t.
         if t = linear_describe_text
         then Inr \<lparr> described_tools =
                      [\<lparr> described_name = js ''linear/create_issue'',
                          described_description = js ''Create an issue'',
                          described_inputSchema = [(js ''type'', JStr (js ''object''))],
                          described_project = js ''linear'' \<rparr>],
                    notFound = [] \<rparr>
         else Inl SyntaxError) \<rparr>"

definition linear_server :: mcp_server where
  "linear_server =
     \<lparr> initialize = Inr (),
       listTools = Inr [js ''list_services'', js ''search_tools'', js ''describe_tools'',
                        js ''execute_tool''],
       callTool = (\<lambda>tool args.
         if tool = js ''list_services'' then Inr [linear_services_text]
         else if tool = js ''search_tools'' then Inr [linear_search_text]
         else if tool = js ''describe_tools'' then Inr [linear_describe_text]
         else Inl McpError) \<rparr>"

definition linear_url :: js_string where
  "linear_url = js ''https://mcp.air-lock.ai/org/my-org''"

definition linear_token :: js_string where
  "linear_token = js ''abc123''"

section \<open>Properties of the encoder cell\<close>

lemma cell_ok_initial: "cell_ok initial_state"
  by (simp add: cell_ok_def initial_state_def)

lemma cell_ok_getEncoder: "cell_ok s \<Longrightarrow> cell_ok (snd (getEncoder s))"
  by (auto simp: cell_ok_def getEncoder_def lessThan_Suc split: option.splits)

lemma cell_ok_freeEncoder: "cell_ok s \<Longrightarrow> cell_ok (freeEncoder s)"
  by (auto simp: cell_ok_def freeEncoder_def split: option.splits)

lemma cell_ok_run_call: "cell_ok s \<Longrightarrow> cell_ok (run_call encode c s)"
proof (cases c)
  case (CountTokens t)
  assume "cell_ok s"
  then have "cell_ok (snd (getEncoder s))" by (rule cell_ok_getEncoder)
  moreover have "snd (countTokens encode t s) = snd (getEncoder s)"
    by (simp add: countTokens_def split: prod.splits sum.splits)
  ultimately show ?thesis using CountTokens by simp
next
  case FreeEncoder
  assume "cell_ok s"
  then show ?thesis using FreeEncoder by (simp add: cell_ok_freeEncoder)
qed

lemma cell_ok_run_calls: "cell_ok s \<Longrightarrow> cell_ok (run_calls encode calls s)"
  unfolding run_calls_def
  by (induction calls arbitrary: s) (simp_all add: cell_ok_run_call)

lemma getEncoder_twice: "getEncoder (snd (getEncoder s)) = (fst (getEncoder s), snd (getEncoder s))"
  by (simp add: getEncoder_def split: option.splits)

lemma run_calls_no_free:
  "FreeEncoder \<notin> set calls \<Longrightarrow> encoder s = Some enc \<Longrightarrow> run_calls encode calls s = s"
  unfolding run_calls_def
proof (induction calls)
  case Nil
  then show ?case by simp
next
  case (Cons c calls)
  then obtain t where c: "c = CountTokens t"
    by (cases c) auto
  have "run_call encode c s = s"
    using Cons.prems(2) by (simp add: c countTokens_def getEncoder_def split: sum.splits)
  with Cons show ?case by simp
qed

lemma encoder_after_getEncoder: "encoder (snd (getEncoder s)) = Some (fst (getEncoder s))"
  by (simp add: getEncoder_def split: option.splits)

text \<open>
  C9. The encoder is created lazily and at most once while in use, and its release is
  idempotent: a second \<open>getEncoder\<close> returns the same encoder and changes nothing; after
  a first \<open>getEncoder\<close>, any sequence of calls of the module that does not contain
  \<open>freeEncoder\<close> leaves the cell as it is, so \<open>getEncoder\<close> still returns the same encoder
  and none is created; \<open>freeEncoder\<close> empties the cell; \<open>freeEncoder\<close> on an empty cell,
  and so a second consecutive \<open>freeEncoder\<close>, releases nothing; and in every run of the
  module from its initial state no encoder is released twice, and the number of encoders
  created is the number released plus the one in the cell, if any.
\<close>

theorem encoder_lazy_once_release_idempotent:
  "getEncoder (snd (getEncoder s)) = (fst (getEncoder s), snd (getEncoder s))
   \<and> (FreeEncoder \<notin> set calls \<longrightarrow>
        getEncoder (run_calls encode calls (snd (getEncoder s)))
          = (fst (getEncoder s), snd (getEncoder s)))
   \<and> encoder (freeEncoder s) = None
   \<and> (encoder s = None \<longrightarrow> freeEncoder s = s)
   \<and> freeEncoder (freeEncoder s) = freeEncoder s
   \<and> distinct (released (run_calls encode calls initial_state))
   \<and> created (run_calls encode calls initial_state)
       = length (released (run_calls encode calls initial_state))
         + (case encoder (run_calls encode calls initial_state) of None \<Rightarrow> 0 | Some enc \<Rightarrow> 1)"
proof -
  let ?t = "run_calls encode calls initial_state"
  have ok: "cell_ok ?t"
    by (rule cell_ok_run_calls [OF cell_ok_initial])
  have d: "distinct (released ?t)"
    using ok by (simp add: cell_ok_def)
  have "card (set (released ?t @ (case encoder ?t of None \<Rightarrow> [] | Some enc \<Rightarrow> [enc]))) = created ?t"
    using ok by (simp add: cell_ok_def)
  moreover have "distinct (released ?t @ (case encoder ?t of None \<Rightarrow> [] | Some enc \<Rightarrow> [enc]))"
    using ok by (simp add: cell_ok_def)
  ultimately have "length (released ?t @ (case encoder ?t of None \<Rightarrow> [] | Some enc \<Rightarrow> [enc])) = created ?t"
    using distinct_card by metis
  then have c: "created ?t = length (released ?t) + (case encoder ?t of None \<Rightarrow> 0 | Some enc \<Rightarrow> 1)"
    by (simp split: option.splits)
  have same: "FreeEncoder \<notin> set calls \<longrightarrow>
        getEncoder (run_calls encode calls (snd (getEncoder s)))
          = (fst (getEncoder s), snd (getEncoder s))"
    using run_calls_no_free [OF _ encoder_after_getEncoder] getEncoder_twice by simp
  have f1: "encoder (freeEncoder s) = None"
    by (simp add: freeEncoder_def split: option.splits)
  have f2: "encoder s = None \<longrightarrow> freeEncoder s = s"
    by (simp add: freeEncoder_def)
  have f3: "freeEncoder (freeEncoder s) = freeEncoder s"
    by (simp add: freeEncoder_def split: option.splits)
  show ?thesis
    using getEncoder_twice same f1 f2 f3 d c by blast
qed

text \<open>
  A client that counts two texts keeps the one encoder it created. A client that
  counts, frees twice, counts again and frees creates two encoders and releases each of
  them once: the second \<open>freeEncoder\<close> releases nothing.
\<close>

theorem encoder_lazy_once_release_idempotent_witness:
  "FreeEncoder \<notin> set [CountTokens (js ''a''), CountTokens (js ''b'')]
   \<and> encoder initial_state = None
   \<and> getEncoder (run_calls codeunit_encode [CountTokens (js ''a''), CountTokens (js ''b'')]
        (snd (getEncoder initial_state)))
       = (0, \<lparr> encoder = Some 0, created = 1, released = [] \<rparr>)
   \<and> freeEncoder initial_state = initial_state
   \<and> released (run_calls codeunit_encode
        [CountTokens (js ''a''), FreeEncoder, FreeEncoder, CountTokens (js ''b''), FreeEncoder]
        initial_state) = [0, 1]
   \<and> distinct (released (run_calls codeunit_encode
        [CountTokens (js ''a''), FreeEncoder, FreeEncoder, CountTokens (js ''b''), FreeEncoder]
        initial_state))"
  using encoder_lazy_once_release_idempotent
    [of initial_state "[CountTokens (js ''a''), CountTokens (js ''b'')]" codeunit_encode]
    encoder_lazy_once_release_idempotent
    [of initial_state
      "[CountTokens (js ''a''), FreeEncoder, FreeEncoder, CountTokens (js ''b''), FreeEncoder]"
      codeunit_encode]
  by (simp add: run_calls_def countTokens_def codeunit_encode_def getEncoder_def freeEncoder_def
      initial_state_def)

section \<open>The heuristic estimator computes the formula of the specification\<close>

lemma alnum_not_space: "is_alnum c \<Longrightarrow> \<not> is_space c"
  by (auto simp: is_alnum_def is_lower_def is_upper_def is_digit_def is_space_def)

lemma space_not_alnum: "is_space c \<Longrightarrow> \<not> is_alnum c"
  using alnum_not_space by blast

lemma lower_not_upper: "is_lower c \<Longrightarrow> \<not> is_upper c"
  by (simp add: is_lower_def is_upper_def)

lemma lower_alnum: "is_lower c \<Longrightarrow> is_alnum c" and upper_alnum: "is_upper c \<Longrightarrow> is_alnum c"
  by (simp_all add: is_alnum_def)

lemma space_32: "is_space 32" and not_alnum_32: "\<not> is_alnum 32"
  by (simp_all add: is_space_def is_alnum_def is_lower_def is_upper_def is_digit_def)

lemma word_starts_dropWhile: "word_starts False (dropWhile is_space cs) = word_starts False cs"
  by (induction cs) simp_all

lemma count_split_from:
  "length (filter (\<lambda>w. length w > 0) (split_from cur s))
     = word_starts (cur \<noteq> []) s + (if cur \<noteq> [] then 1 else 0)"
  by (induction cur s rule: split_from.induct) (auto simp: word_starts_dropWhile)

lemma word_starts_blank_Cons:
  "word_starts inw (blank_non_alnum (c # cs)) =
     (if is_alnum c then (if inw then 0 else 1) + word_starts True (blank_non_alnum cs)
      else word_starts False (blank_non_alnum cs))"
  by (simp add: blank_non_alnum_def alnum_not_space space_32)

lemma blank_non_alnum_Nil: "blank_non_alnum [] = []"
  by (simp add: blank_non_alnum_def)

lemma word_starts_blank_camel:
  "\<not> (is_lower p \<and> (\<exists>b rest. s = b # rest \<and> is_upper b))
   \<Longrightarrow> word_starts (is_alnum p) (blank_non_alnum (camel_split s)) = starts p s"
proof (induction s arbitrary: p rule: camel_split.induct)
  case (1 a b rest)
  show ?case
  proof (cases "is_lower a \<and> is_upper b")
    case True
    then have ab: "is_alnum a" "is_alnum b" "\<not> is_upper a" "\<not> is_lower b"
      using lower_not_upper by (auto simp: lower_alnum upper_alnum)
    have ih: "word_starts (is_alnum b) (blank_non_alnum (camel_split rest)) = starts b rest"
      using True ab by (intro 1(1)) auto
    have cs: "camel_split (a # b # rest) = a # 32 # b # camel_split rest"
      using True by simp
    have "word_starts (is_alnum p) (blank_non_alnum (camel_split (a # b # rest)))
        = (if is_alnum p then 0 else 1) + (1 + word_starts True (blank_non_alnum (camel_split rest)))"
      unfolding cs word_starts_blank_Cons using ab by (simp add: not_alnum_32)
    also have "\<dots> = starts p (a # b # rest)"
      using True ab ih by simp
    finally show ?thesis .
  next
    case False
    have ih: "word_starts (is_alnum a) (blank_non_alnum (camel_split (b # rest))) = starts a (b # rest)"
      using False by (intro 1(2)) auto
    have pa: "\<not> (is_lower p \<and> is_upper a)"
      using 1(3) by simp
    have cs: "camel_split (a # b # rest) = a # camel_split (b # rest)"
      using False by auto
    have "word_starts (is_alnum p) (blank_non_alnum (camel_split (a # b # rest)))
        = (if is_alnum a then (if is_alnum p then 0 else 1) else 0)
          + word_starts (is_alnum a) (blank_non_alnum (camel_split (b # rest)))"
      unfolding cs word_starts_blank_Cons [of _ a] by simp
    also have "\<dots> = starts p (a # b # rest)"
      unfolding ih using pa by auto
    finally show ?thesis .
  qed
qed (auto simp: word_starts_blank_Cons blank_non_alnum_Nil)

lemma words_count:
  "length (filter (\<lambda>w. length w > 0) (split_ws (blank_non_alnum (camel_split text))))
     = starts 32 text"
  unfolding split_ws_def count_split_from
  using word_starts_blank_camel [of 32 "text"]
  by (simp add: not_alnum_32 is_lower_def)

lemma spec_S_eq: "spec_S text = length (filter is_structural text)"
proof -
  have "spec_S text = length (filter is_structural (map ((!) text) [0..<length text]))"
    by (simp add: spec_S_def filter_map comp_def js_def is_structural_def insert_commute)
  then show ?thesis by (simp add: map_nth)
qed

lemma prev_at_simps: "prev_at p s 0 = p" "prev_at p (c # cs) (Suc i) = prev_at c cs i"
  by (simp_all add: prev_at_def)

lemma starts_index:
  "length (filter
       (\<lambda>i. is_alnum (s ! i)
            \<and> (\<not> is_alnum (prev_at p s i) \<or> (is_lower (prev_at p s i) \<and> is_upper (s ! i))))
       [0..<length s]) = starts p s"
proof (induction s arbitrary: p)
  case Nil
  then show ?case by simp
next
  case (Cons c cs)
  have up: "[0..<length (c # cs)] = 0 # map Suc [0..<length cs]"
    by (simp add: upt_conv_Cons map_Suc_upt del: upt_Suc)
  show ?case
    unfolding up
    using Cons [of c]
    by (simp add: filter_map comp_def prev_at_simps)
qed

lemma spec_W_eq: "spec_W text = starts 32 text"
proof -
  have "spec_W text = length (filter
       (\<lambda>i. is_alnum (text ! i)
            \<and> (\<not> is_alnum (prev_at 32 text i)
                 \<or> (is_lower (prev_at 32 text i) \<and> is_upper (text ! i))))
       [0..<length text])"
    unfolding spec_W_def
    by (rule arg_cong [where f = length], rule filter_cong)
       (auto simp: not_alnum_32 prev_at_def)
  then show ?thesis by (simp only: starts_index)
qed

text \<open>
  C4. For every text, the heuristic estimator returns
  \<open>ceil((ceil(S * 0.5 + W * 1.3) + ceil(length / 4)) / 2)\<close> for the numbers \<open>S\<close> and \<open>W\<close>
  of the specification.
\<close>

theorem countTokens_live_formula:
  "countTokens_live text =
     \<lceil>(real_of_int \<lceil>real (spec_S text) * 0.5 + real (spec_W text) * 1.3\<rceil>
        + real_of_int \<lceil>real (length text) / 4\<rceil>) / 2\<rceil>"
  unfolding countTokens_live_def Let_def spec_S_eq spec_W_eq words_count
  by (rule refl)

text \<open>The formula at a text with four structural characters and six fragments.\<close>

theorem countTokens_live_formula_witness:
  "countTokens_live (js ''{name:getUserById,x}'') = 8
   \<and> spec_S (js ''{name:getUserById,x}'') = 4 \<and> spec_W (js ''{name:getUserById,x}'') = 6"
  using countTokens_live_formula [of "js ''{name:getUserById,x}''"]
  by (simp add: spec_S_def spec_W_def js_def is_alnum_def is_lower_def is_upper_def is_digit_def)


lemma ceiling_nonneg: "0 \<le> (x::real) \<Longrightarrow> 0 \<le> \<lceil>x\<rceil>"
  by (metis ceiling_mono ceiling_zero)

lemma half_sum_pos:
  "0 \<le> (e::int) \<Longrightarrow> 1 \<le> q \<Longrightarrow> 1 \<le> \<lceil>(real_of_int e + real_of_int q) / 2\<rceil>"
proof -
  assume "0 \<le> e" "1 \<le> q"
  then have "0 < e + q" by simp
  then have "0 < real_of_int (e + q)" by (simp only: of_int_0_less_iff)
  then have "0 < (real_of_int e + real_of_int q) / 2" by simp
  then show ?thesis by (simp only: one_le_ceiling)
qed


lemma estimate_pos:
  assumes "0 < n"
  shows "1 \<le> \<lceil>(real_of_int \<lceil>real a * 0.5 + real b * 1.3\<rceil> + real_of_int \<lceil>real n / 4\<rceil>) / 2\<rceil>"
proof -
  have "0 < real n / 4" using assms by simp
  then have q: "1 \<le> \<lceil>real n / 4\<rceil>" by (simp only: one_le_ceiling)
  have e: "0 \<le> \<lceil>real a * 0.5 + real b * 1.3\<rceil>"
    by (rule ceiling_nonneg) simp
  show ?thesis by (rule half_sum_pos [OF e q])
qed



lemma countTokens_live_pos: "text \<noteq> [] \<Longrightarrow> 1 \<le> countTokens_live text"
  unfolding countTokens_live_def Let_def by (rule estimate_pos) simp





section \<open>The synthetic catalog has one tool for each index\<close>

lemma dec_not_empty: "dec n \<noteq> []"
  by (subst dec.simps) simp

lemma dec_digits: "c \<in> set (dec n) \<Longrightarrow> is_digit c"
proof (induction n rule: dec.induct)
  case (1 n)
  show ?case
  proof (cases "n < 10")
    case True
    with 1(2) show ?thesis
      by (subst (asm) dec.simps) (simp add: is_digit_def)
  next
    case False
    with 1 show ?thesis
      by (subst (asm) (2) dec.simps) (auto simp: is_digit_def)
  qed
qed

lemma undec_snoc: "undec (xs @ [c]) = 10 * undec xs + (c - 48)"
  by (simp add: undec_def)

lemma undec_dec: "undec (dec n) = n"
proof (induction n rule: dec.induct)
  case (1 n)
  show ?case
  proof (cases "n < 10")
    case True
    then show ?thesis
      by (subst dec.simps) (simp add: undec_def)
  next
    case False
    with 1 show ?thesis
      by (subst dec.simps) (simp add: undec_snoc)
  qed
qed

lemma dec_inj: "dec a = dec b \<Longrightarrow> a = b"
  by (metis undec_dec)

lemma five_cases: "k < 5 \<Longrightarrow> k = 0 \<or> k = 1 \<or> k = 2 \<or> k = 3 \<or> k = (4::nat)"
  by arith

lemma pathTemplates_nth:
  "k < 5 \<Longrightarrow> pathTemplates r ! k = js ''/'' @ r @ path_suffix k"
  by (drule five_cases) (auto simp: pathTemplates_def path_suffix_def)

lemma path_suffix_no_digit: "k < 5 \<Longrightarrow> takeWhile is_digit (path_suffix k) = []"
  by (drule five_cases) (auto simp: path_suffix_def js_def is_digit_def)

lemma path_suffix_inj: "p < 5 \<Longrightarrow> q < 5 \<Longrightarrow> path_suffix p = path_suffix q \<Longrightarrow> p = q"
  by (drule five_cases, drule five_cases) (auto simp: path_suffix_def js_def)

lemma takeWhile_dec_suffix: "k < 5 \<Longrightarrow> takeWhile is_digit (dec a @ path_suffix k) = dec a"
  by (simp add: takeWhile_append2 dec_digits path_suffix_no_digit)

lemma synthetic_path_eq:
  "synthetic_path i = js ''/'' @ (js ''resource'' @ dec (i div 5)) @ path_suffix (i mod 5)"
  by (simp add: synthetic_path_def pathTemplates_nth)

lemma synthetic_path_inj: "synthetic_path i = synthetic_path j \<Longrightarrow> i = j"
proof -
  assume "synthetic_path i = synthetic_path j"
  then have e: "dec (i div 5) @ path_suffix (i mod 5) = dec (j div 5) @ path_suffix (j mod 5)"
    by (simp add: synthetic_path_eq)
  then have "takeWhile is_digit (dec (i div 5) @ path_suffix (i mod 5))
           = takeWhile is_digit (dec (j div 5) @ path_suffix (j mod 5))"
    by simp
  then have d: "dec (i div 5) = dec (j div 5)"
    by (simp add: takeWhile_dec_suffix)
  then have q: "i div 5 = j div 5"
    by (rule dec_inj)
  from e d have "path_suffix (i mod 5) = path_suffix (j mod 5)"
    by simp
  then have "i mod 5 = j mod 5"
    by (intro path_suffix_inj) simp_all
  with q show "i = j"
    by (metis div_mult_mod_eq)
qed

lemma synthetic_path_head: "\<exists>rest. synthetic_path i = 47 # rest"
  by (simp add: synthetic_path_eq js_def)

lemma synthetic_path_not_proto: "synthetic_path i \<noteq> js ''__proto__''"
  using synthetic_path_head [of i] by (auto simp: js_def)

lemma synthetic_path_not_index: "\<not> is_array_index (synthetic_path i)"
  using synthetic_path_head [of i] by (auto simp: is_array_index_def is_digit_def)

lemma synthetic_method_cases:
  "synthetic_method i \<in> {js ''get'', js ''post'', js ''put'', js ''patch'', js ''delete''}"
proof -
  have "i mod 5 < 5" by simp
  then show ?thesis
    by (drule_tac five_cases) (auto simp: synthetic_method_def methods_def)
qed

lemma obj_set_first_method:
  "m \<in> {js ''get'', js ''post'', js ''put'', js ''patch'', js ''delete''}
   \<Longrightarrow> obj_set [] m v = [(m, v)]"
  by (auto simp: obj_set_def obj_get_def is_array_index_def is_digit_def js_def)

lemma method_not_parameters:
  "m \<in> {js ''get'', js ''post'', js ''put'', js ''patch'', js ''delete''}
   \<Longrightarrow> m \<noteq> js ''parameters''"
  by (auto simp: js_def)

lemma map_of_synthetic_entries:
  "map_of (map synthetic_entry [0..<n]) (synthetic_path n) = None"
proof -
  have "synthetic_path n \<notin> fst ` set (map synthetic_entry [0..<n])"
    using synthetic_path_inj by (fastforce simp: synthetic_entry_def)
  then show ?thesis
    by (metis map_of_eq_None_iff)
qed

lemma replace_last_entry:
  "map_of ps k = None \<Longrightarrow>
   map (\<lambda>p. if fst p = k then (k, v) else p) (ps @ [(k, w)]) = ps @ [(k, v)]"
  by (induction ps) (auto split: if_splits)

lemma synthetic_step_appends:
  "synthetic_step n (map synthetic_entry [0..<n]) = map synthetic_entry [0..<n] @ [synthetic_entry n]"
proof -
  let ?ps = "map synthetic_entry [0..<n]"
  let ?path = "synthetic_path n"
  let ?op = "synthetic_operation (synthetic_method n) (js ''resource'' @ dec (n div 5)) (n mod 5) ?path"
  have none: "map_of ?ps ?path = None"
    by (rule map_of_synthetic_entries)
  have s1: "obj_set ?ps ?path [] = ?ps @ [(?path, [])]"
    using none by (simp add: obj_set_def obj_get_def synthetic_path_not_proto synthetic_path_not_index)
  have g1: "obj_get (?ps @ [(?path, [])]) ?path = Some []"
    using none by (simp add: obj_get_def map_add_Some_iff)
  have s2: "obj_set (?ps @ [(?path, [])]) ?path [(synthetic_method n, ?op)]
              = ?ps @ [(?path, [(synthetic_method n, ?op)])]"
    using g1 none
    by (simp add: obj_set_def synthetic_path_not_proto replace_last_entry del: map_append)
  have m: "obj_set [] (synthetic_method n) ?op = [(synthetic_method n, ?op)]"
    by (rule obj_set_first_method [OF synthetic_method_cases])
  show ?thesis
    unfolding synthetic_step_def Let_def
    using none s1 g1 s2 m
    by (simp add: obj_get_def synthetic_path_def [symmetric] synthetic_method_def [symmetric]
        synthetic_entry_def)
qed

lemma synthetic_paths: "fold synthetic_step [0..<n] [] = map synthetic_entry [0..<n]"
  by (induction n) (simp_all add: synthetic_step_appends)

lemma tools_of_entries:
  "length (concat (map (\<lambda>entry.
        map (\<lambda>m. operation_tool (fst entry) (fst m) (snd m))
          (filter (\<lambda>m. fst m \<noteq> js ''parameters'') (snd entry)))
       (map synthetic_entry xs))) = length xs"
  by (induction xs)
     (simp_all add: synthetic_entry_def method_not_parameters [OF synthetic_method_cases])

lemma synthetic_tools_count: "length (openApiToMcpTools (generateSyntheticSpec n)) = n"
  by (simp add: openApiToMcpTools_def generateSyntheticSpec_def synthetic_paths tools_of_entries
      del: map_map)

lemma pairs_of_entries:
  "path_verb_pairs (map synthetic_entry xs) = map (\<lambda>i. (synthetic_path i, synthetic_method i)) xs"
  by (induction xs) (simp_all add: path_verb_pairs_def synthetic_entry_def)

lemma tools_count_general:
  "length (openApiToMcpTools spec)
     = length (filter (\<lambda>pv. snd pv \<noteq> js ''parameters'') (path_verb_pairs (paths spec)))"
proof -
  have "length (concat (map (\<lambda>entry.
        map (\<lambda>m. operation_tool (fst entry) (fst m) (snd m))
          (filter (\<lambda>m. fst m \<noteq> js ''parameters'') (snd entry))) ps))
     = length (filter (\<lambda>pv. snd pv \<noteq> js ''parameters'') (path_verb_pairs ps))" for ps
    by (induction ps) (simp_all add: path_verb_pairs_def filter_map comp_def)
  then show ?thesis
    by (simp add: openApiToMcpTools_def)
qed

text \<open>
  C5. The catalog \<open>generateSyntheticSpec 0\<close> normalizes to no tool, and for every \<open>N\<close> the
  catalog \<open>generateSyntheticSpec N\<close> normalizes to exactly \<open>N\<close> tools: the (path, verb) pairs
  of the catalog are those of the indices below \<open>N\<close>, in order and all different (no
  entry is overwritten), and the normalizer makes one tool of every pair of a catalog
  whose verb is not \<open>parameters\<close>.
\<close>

theorem synthetic_catalog_normalizes_to_N_tools:
  "openApiToMcpTools (generateSyntheticSpec 0) = []
   \<and> length (openApiToMcpTools (generateSyntheticSpec N)) = N
   \<and> path_verb_pairs (paths (generateSyntheticSpec N))
       = map (\<lambda>i. (synthetic_path i, synthetic_method i)) [0..<N]
   \<and> distinct (map (\<lambda>i. (synthetic_path i, synthetic_method i)) [0..<N])
   \<and> length (openApiToMcpTools spec)
       = length (filter (\<lambda>pv. snd pv \<noteq> js ''parameters'') (path_verb_pairs (paths spec)))"
proof -
  have a: "openApiToMcpTools (generateSyntheticSpec 0) = []"
    by (simp add: openApiToMcpTools_def generateSyntheticSpec_def)
  have b: "length (openApiToMcpTools (generateSyntheticSpec N)) = N"
    by (rule synthetic_tools_count)
  have c: "path_verb_pairs (paths (generateSyntheticSpec N))
       = map (\<lambda>i. (synthetic_path i, synthetic_method i)) [0..<N]"
    by (simp add: generateSyntheticSpec_def synthetic_paths pairs_of_entries)
  have "inj_on (\<lambda>i. (synthetic_path i, synthetic_method i)) (set [0..<N])"
    by (rule inj_onI) (simp add: synthetic_path_inj)
  then have d: "distinct (map (\<lambda>i. (synthetic_path i, synthetic_method i)) [0..<N])"
    by (simp add: distinct_map)
  show ?thesis
    using a b c d tools_count_general by blast
qed

text \<open>The catalog of seven operations: seven tools, named by their operation ids.\<close>

theorem synthetic_catalog_normalizes_to_N_tools_witness:
  "length (openApiToMcpTools (generateSyntheticSpec 7)) = 7
   \<and> openApiToMcpTools (generateSyntheticSpec 0) = []
   \<and> map name (openApiToMcpTools (generateSyntheticSpec 2))
       = [js ''get_resource0_0'', js ''post_resource0_1'']"
proof -
  have u: "[0..<2] = [0, 1]"
    by (simp add: numeral_2_eq_2)
  have "fold synthetic_step [0..<2] [] = map synthetic_entry [0..<2]"
    by (rule synthetic_paths)
  then have p: "paths (generateSyntheticSpec 2) = [synthetic_entry 0, synthetic_entry 1]"
    by (simp add: generateSyntheticSpec_def u)
  have "map name (openApiToMcpTools (generateSyntheticSpec 2))
       = [js ''get_resource0_0'', js ''post_resource0_1'']"
    unfolding openApiToMcpTools_def p
    by (simp add: synthetic_entry_def operation_tool_def Let_def tool_name_def
        synthetic_operation_def synthetic_method_def methods_def dec.simps js_def)
  then show ?thesis
    using synthetic_catalog_normalizes_to_N_tools [of 7 "generateSyntheticSpec 7"] by blast
qed

section \<open>The names of the tools\<close>

lemma names_of_entries:
  "map name (concat (map (\<lambda>entry.
        map (\<lambda>m. operation_tool (fst entry) (fst m) (snd m))
          (filter (\<lambda>m. fst m \<noteq> js ''parameters'') (snd entry))) ps))
   = map (\<lambda>t. tool_name (fst t) (fst (snd t)) (snd (snd t)))
       (concat (map (\<lambda>entry.
          map (\<lambda>m. (fst entry, fst m, snd m))
            (filter (\<lambda>m. fst m \<noteq> js ''parameters'') (snd entry))) ps))"
  by (induction ps) (simp_all add: operation_tool_def Let_def comp_def)

lemma tool_name_cases:
  "tool_name path method op =
     (case operationId op of
        None \<Rightarrow> spec_synthesized_name path method
      | Some oid \<Rightarrow> if oid = [] then spec_synthesized_name path method else oid)"
  by (cases "operationId op")
     (simp_all add: tool_name_def spec_synthesized_name_def underscore_non_alnum_def is_alnum_def
       js_def)

text \<open>
  C8, as the specification states it, fails: an operation whose \<open>operationId\<close> is the empty
  string has an \<open>operationId\<close>, and its tool is named by the verb and the path.
\<close>

theorem empty_operationId_not_used:
  "map (\<lambda>t. operationId (snd (snd t))) (operation_triples empty_id_catalog) = [Some []]
   \<and> map name (openApiToMcpTools empty_id_catalog) = [js ''get__users__id_'']"
  by (simp add: empty_id_catalog_def openApiToMcpTools_def operation_triples_def
      operation_tool_def Let_def
      tool_name_def underscore_non_alnum_def is_alnum_def is_lower_def is_upper_def is_digit_def
      js_def)

text \<open>
  C8, amended. For every (path, verb, operation) triple that the normalizer processes,
  the name of the tool is the \<open>operationId\<close> of the operation when it has one that is not the
  empty string, and otherwise the verb, an underscore, and the path with every character
  that is not a letter or digit replaced by an underscore.
\<close>

theorem tool_names_resolved:
  "map name (openApiToMcpTools spec)
     = map (\<lambda>t. case operationId (snd (snd t)) of
                  None \<Rightarrow> spec_synthesized_name (fst t) (fst (snd t))
                | Some oid \<Rightarrow>
                    if oid = [] then spec_synthesized_name (fst t) (fst (snd t)) else oid)
         (operation_triples spec)"
  by (simp add: openApiToMcpTools_def operation_triples_def names_of_entries tool_name_cases)

text \<open>A catalog with a named operation, one without a name and a block of parameters.\<close>

theorem tool_names_resolved_witness:
  "map name (openApiToMcpTools
      \<lparr> openapi = js ''3.0.3'',
        info = \<lparr> title = js ''Users'', info_description = None, version = js ''1'' \<rparr>,
        paths =
          [(js ''/users/{id}'',
            [(js ''parameters'', \<lparr> operationId = None, summary = None, op_description = None,
                 parameters = None, requestBody = None \<rparr>),
             (js ''get'', \<lparr> operationId = Some (js ''getUser''), summary = None,
                 op_description = None, parameters = None, requestBody = None \<rparr>),
             (js ''delete'', \<lparr> operationId = None, summary = None, op_description = None,
                 parameters = None, requestBody = None \<rparr>)])] \<rparr>)
   = [js ''getUser'', js ''delete__users__id_'']"
  using tool_names_resolved
    [of "\<lparr> openapi = js ''3.0.3'',
        info = \<lparr> title = js ''Users'', info_description = None, version = js ''1'' \<rparr>,
        paths =
          [(js ''/users/{id}'',
            [(js ''parameters'', \<lparr> operationId = None, summary = None, op_description = None,
                 parameters = None, requestBody = None \<rparr>),
             (js ''get'', \<lparr> operationId = Some (js ''getUser''), summary = None,
                 op_description = None, parameters = None, requestBody = None \<rparr>),
             (js ''delete'', \<lparr> operationId = None, summary = None, op_description = None,
                 parameters = None, requestBody = None \<rparr>)])] \<rparr>"]
  by (simp add: operation_triples_def spec_synthesized_name_def is_lower_def is_upper_def
      is_digit_def js_def)

section \<open>The results of runBenchmark\<close>

lemma countToolTokens_fst: "fst (countToolTokens encode tool s) = tool_tokens encode tool"
  by (simp add: countToolTokens_def countTokens_def tool_tokens_def split: prod.splits sum.splits)

lemma add_tool_tokens_fst:
  "fst (add_tool_tokens encode tools a s)
     = (case tools_cost encode tools of Inl e \<Rightarrow> Inl e | Inr n \<Rightarrow> Inr (a + n))"
proof (induction tools arbitrary: a s)
  case Nil
  then show ?case by simp
next
  case (Cons t tools)
  obtain r s' where c: "countToolTokens encode t s = (r, s')"
    by (cases "countToolTokens encode t s")
  then have r: "tool_tokens encode t = r"
    using countToolTokens_fst [of encode t s] by simp
  show ?case
  proof (cases r)
    case (Inl e)
    then show ?thesis by (simp add: c r)
  next
    case (Inr n)
    then show ?thesis
      using Cons.IH [of "a + n" s'] by (simp add: c r split: sum.splits)
  qed
qed

lemma add_catalogs_fst:
  "fst (add_catalogs encode specs c f s)
     = (case catalogs_cost encode specs of
          Inl e \<Rightarrow> Inl e
        | Inr cf \<Rightarrow> Inr (c + fst cf, f + snd cf))"
proof (induction specs arbitrary: c f s)
  case Nil
  then show ?case by simp
next
  case (Cons entry specs)
  show ?case
  proof (cases "document_tools (snd entry)")
    case (Inl e)
    then show ?thesis by simp
  next
    case (Inr tools)
    obtain r s' where a: "add_tool_tokens encode tools f s = (r, s')"
      by (cases "add_tool_tokens encode tools f s")
    then have r: "r = (case tools_cost encode tools of Inl e \<Rightarrow> Inl e | Inr n \<Rightarrow> Inr (f + n))"
      using add_tool_tokens_fst [of encode tools f s] by simp
    show ?thesis
    proof (cases "tools_cost encode tools")
      case (Inl e)
      then show ?thesis using r by (simp add: Inr a)
    next
      case tc: (Inr n)
      then show ?thesis
        using r Cons.IH [of "c + length tools" "f + n" s']
        by (simp add: Inr a split: sum.splits prod.splits)
    qed
  qed
qed

lemma runBenchmark_result:
  "fst (runBenchmark encode sc specs s)
     = (case tools_cost encode META_TOOLS of
          Inl e \<Rightarrow> Inl e
        | Inr meta \<Rightarrow>
            (case catalogs_cost encode specs of
               Inl e \<Rightarrow> Inl e
             | Inr cf \<Rightarrow> Inr (benchmark_record sc (length specs) (fst cf) meta (snd cf))))"
proof (cases "tools_cost encode META_TOOLS")
  case (Inl e)
  then have "fst (add_tool_tokens encode META_TOOLS 0 s) = Inl e"
    by (simp add: add_tool_tokens_fst)
  then obtain s1 where "add_tool_tokens encode META_TOOLS 0 s = (Inl e, s1)"
    by (cases "add_tool_tokens encode META_TOOLS 0 s") simp
  then show ?thesis
    by (simp add: runBenchmark_def Inl)
next
  case (Inr meta)
  then have "fst (add_tool_tokens encode META_TOOLS 0 s) = Inr meta"
    by (simp add: add_tool_tokens_fst)
  then obtain s1 where m: "add_tool_tokens encode META_TOOLS 0 s = (Inr meta, s1)"
    by (cases "add_tool_tokens encode META_TOOLS 0 s") simp
  show ?thesis
  proof (cases "catalogs_cost encode specs")
    case e: (Inl e)
    then have "fst (add_catalogs encode specs 0 0 s1) = Inl e"
      by (simp add: add_catalogs_fst)
    then obtain s2 where "add_catalogs encode specs 0 0 s1 = (Inl e, s2)"
      by (cases "add_catalogs encode specs 0 0 s1") simp
    then show ?thesis
      by (simp add: runBenchmark_def Inr m e)
  next
    case cf: (Inr cf)
    obtain cnt full where p: "cf = (cnt, full)"
      by (cases cf)
    have "fst (add_catalogs encode specs 0 0 s1) = Inr (cnt, full)"
      by (simp add: add_catalogs_fst cf p)
    then obtain s2 where "add_catalogs encode specs 0 0 s1 = (Inr (cnt, full), s2)"
      by (cases "add_catalogs encode specs 0 0 s1") simp
    then show ?thesis
      by (simp add: runBenchmark_def Inr m cf p benchmark_record_def Let_def)
  qed
qed

lemma runBenchmark_Inr:
  "fst (runBenchmark encode sc specs s) = Inr r
     \<longleftrightarrow> (\<exists>meta cnt full. tools_cost encode META_TOOLS = Inr meta
            \<and> catalogs_cost encode specs = Inr (cnt, full)
            \<and> r = benchmark_record sc (length specs) cnt meta full)"
  by (auto simp: runBenchmark_result split: sum.splits)

text \<open>What a sum is the sum of, and which exception ends a run.\<close>

lemma tools_cost_Inr:
  "tools_cost encode tools = Inr m
     \<Longrightarrow> \<exists>counts. map (tool_tokens encode) tools = map Inr counts \<and> m = sum_list counts"
proof (induction tools arbitrary: m)
  case Nil
  then show ?case by simp
next
  case (Cons t tools)
  from Cons.prems obtain n k where n: "tool_tokens encode t = Inr n"
    and k: "tools_cost encode tools = Inr k" and m: "m = n + k"
    by (auto split: sum.splits)
  from Cons.IH [OF k] obtain counts where
    "map (tool_tokens encode) tools = map Inr counts" "k = sum_list counts"
    by blast
  then have "map (tool_tokens encode) (t # tools) = map Inr (n # counts) \<and> m = sum_list (n # counts)"
    using n m by simp
  then show ?case by blast
qed

lemma tools_cost_Inl:
  "tools_cost encode tools = Inl e \<Longrightarrow> \<exists>t. encode t = Inl e"
proof (induction tools)
  case Nil
  then show ?case by simp
next
  case (Cons t tools)
  then show ?case
    by (auto simp: tool_tokens_def split: sum.splits)
qed

lemma catalogs_cost_Inl:
  "catalogs_cost encode specs = Inl e
     \<Longrightarrow> (\<exists>t. encode t = Inl e)
         \<or> (e = TypeError \<and> (\<exists>entry\<in>set specs. \<exists>i. snd entry = NoPaths i))"
proof (induction specs)
  case Nil
  then show ?case by simp
next
  case (Cons entry specs)
  show ?case
  proof (cases "snd entry")
    case (Catalog spec)
    then show ?thesis
      using Cons tools_cost_Inl [of encode "openApiToMcpTools spec" e]
      by (auto split: sum.splits prod.splits)
  next
    case (NoPaths i)
    then show ?thesis
      using Cons.prems by auto
  qed
qed

lemma runBenchmark_Inl:
  "fst (runBenchmark encode sc specs s) = Inl e
     \<Longrightarrow> (\<exists>t. encode t = Inl e)
         \<or> (e = TypeError \<and> (\<exists>entry\<in>set specs. \<exists>i. snd entry = NoPaths i))"
  using tools_cost_Inl [of encode META_TOOLS e] catalogs_cost_Inl [of encode specs e]
  by (auto simp: runBenchmark_result split: sum.splits)

lemma tools_cost_append:
  "tools_cost encode (xs @ ys)
     = (case tools_cost encode xs of
          Inl e \<Rightarrow> Inl e
        | Inr n \<Rightarrow> (case tools_cost encode ys of Inl e \<Rightarrow> Inl e | Inr m \<Rightarrow> Inr (n + m)))"
  by (induction xs) (auto split: sum.splits)

lemma catalogs_cost_Inr:
  "catalogs_cost encode specs = Inr (c, f)
     \<Longrightarrow> c = length (catalog_tools specs) \<and> tools_cost encode (catalog_tools specs) = Inr f
         \<and> list_all (\<lambda>entry. is_catalog (snd entry)) specs"
proof (induction specs arbitrary: c f)
  case Nil
  then show ?case by (simp add: catalog_tools_def)
next
  case (Cons entry specs)
  from Cons.prems obtain spec where d: "snd entry = Catalog spec"
    by (cases "snd entry") auto
  from Cons.prems d obtain n c' g where n: "tools_cost encode (openApiToMcpTools spec) = Inr n"
    and r: "catalogs_cost encode specs = Inr (c', g)"
    and c: "c = length (openApiToMcpTools spec) + c'" and f: "f = n + g"
    by (auto split: sum.splits prod.splits)
  from Cons.IH [OF r] have ih: "c' = length (catalog_tools specs)"
    "tools_cost encode (catalog_tools specs) = Inr g"
    "list_all (\<lambda>entry. is_catalog (snd entry)) specs"
    by simp_all
  have t: "catalog_tools (entry # specs) = openApiToMcpTools spec @ catalog_tools specs"
    by (simp add: catalog_tools_def d)
  have "is_catalog (snd entry)"
    by (simp add: d is_catalog_def)
  then show ?case
    by (simp add: t tools_cost_append n ih c f)
qed

text \<open>A run returns when the encoder returns on every text and every document has \<open>paths\<close>.\<close>

lemma tools_cost_returns:
  "\<forall>t. \<exists>tokens. encode t = Inr tokens \<Longrightarrow> \<exists>n. tools_cost encode tools = Inr n"
proof (induction tools)
  case Nil
  then show ?case by simp
next
  case (Cons t tools)
  then obtain tokens n where "encode (JSON_stringify (tool_json t)) = Inr tokens"
    "tools_cost encode tools = Inr n"
    by blast
  then show ?case by (simp add: tool_tokens_def)
qed

lemma catalogs_cost_returns:
  assumes "\<forall>t. \<exists>tokens. encode t = Inr tokens"
  shows "\<forall>entry\<in>set specs. \<exists>spec. snd entry = Catalog spec
         \<Longrightarrow> \<exists>cf. catalogs_cost encode specs = Inr cf"
proof (induction specs)
  case Nil
  then show ?case by simp
next
  case (Cons entry specs)
  then obtain spec cf where d: "snd entry = Catalog spec" and r: "catalogs_cost encode specs = Inr cf"
    by auto
  obtain n where "tools_cost encode (openApiToMcpTools spec) = Inr n"
    using tools_cost_returns [OF assms] by blast
  then show ?case by (simp add: d r split: prod.splits)
qed

lemma runBenchmark_returns:
  assumes "\<forall>t. \<exists>tokens. encode t = Inr tokens"
    and "\<forall>entry\<in>set specs. \<exists>spec. snd entry = Catalog spec"
  shows "\<exists>r. fst (runBenchmark encode sc specs s) = Inr r"
proof -
  obtain meta where m: "tools_cost encode META_TOOLS = Inr meta"
    using tools_cost_returns [OF assms(1)] by blast
  obtain cf where c: "catalogs_cost encode specs = Inr cf"
    using catalogs_cost_returns [OF assms] by blast
  show ?thesis by (simp add: runBenchmark_result m c)
qed

lemma codeunit_encode_returns: "\<forall>t. \<exists>tokens. codeunit_encode t = Inr tokens"
  by (simp add: codeunit_encode_def)

lemma JSON_stringify_tool_not_empty: "JSON_stringify (tool_json tool) \<noteq> []"
  by (simp add: JSON_stringify_def tool_json_def js_def)

lemma meta_cost_pos:
  assumes "\<And>t tokens. t \<noteq> [] \<Longrightarrow> encode t = Inr tokens \<Longrightarrow> tokens \<noteq> []"
    and "tools_cost encode META_TOOLS = Inr meta"
  shows "0 < meta"
proof -
  have pos: "0 < n" if "tool_tokens encode tool = Inr n" for tool n
    using that assms(1) [OF JSON_stringify_tool_not_empty, of tool]
    by (auto simp: tool_tokens_def split: sum.splits)
  obtain tool tools where t: "META_TOOLS = tool # tools"
    by (simp add: META_TOOLS_def)
  from assms(2) obtain n k where "tool_tokens encode tool = Inr n" "meta = n + k"
    unfolding t by (auto split: sum.splits)
  then show ?thesis
    using pos [of tool n] by simp
qed

lemma meta_catalog_tools: "openApiToMcpTools meta_catalog = META_TOOLS"
  by (simp add: openApiToMcpTools_def meta_catalog_def META_TOOLS_def operation_tool_def Let_def
     tool_name_def tool_description_def add_parameters_def add_parameter_def add_request_body_def
     json_body_schema_def param_property_def schema_field_def obj_set_def obj_get_def object_assign_def
     is_array_index_def is_digit_def js_def)

lemma meta_catalog_cost:
  "catalogs_cost encode [(n, Catalog meta_catalog)]
     = (case tools_cost encode META_TOOLS of Inl e \<Rightarrow> Inl e | Inr f \<Rightarrow> Inr (4, f))"
  by (simp add: meta_catalog_tools split: sum.splits) (simp add: META_TOOLS_def)

lemma codeunit_encode_not_empty:
  "t \<noteq> [] \<Longrightarrow> codeunit_encode t = Inr tokens \<Longrightarrow> tokens \<noteq> []"
  by (auto simp: codeunit_encode_def)

text \<open>
  C1. For any two scenarios, whatever their catalogs and the state of the encoder cell,
  the results that \<open>runBenchmark\<close> returns report the same \<open>metaToolsTokens\<close>: the sum of
  the token counts of the four tools of \<open>META_TOOLS\<close>, which depends on the encoder only.
  A run returns a result whenever the encoder returns on every text and every document
  has \<open>paths\<close>; a run that throws reports nothing.
\<close>

theorem metaToolsTokens_constant:
  "(fst (runBenchmark encode sc1 specs1 s1) = Inr r1
      \<and> fst (runBenchmark encode sc2 specs2 s2) = Inr r2
      \<longrightarrow> metaToolsTokens r1 = metaToolsTokens r2)
   \<and> (fst (runBenchmark encode sc1 specs1 s1) = Inr r1
      \<longrightarrow> tools_cost encode META_TOOLS = Inr (metaToolsTokens r1)
          \<and> (\<exists>counts. map (tool_tokens encode) META_TOOLS = map Inr counts
                \<and> metaToolsTokens r1 = sum_list counts))
   \<and> length META_TOOLS = 4
   \<and> ((\<forall>t. \<exists>tokens. encode t = Inr tokens)
        \<and> (\<forall>entry\<in>set specs1. \<exists>spec. snd entry = Catalog spec)
      \<longrightarrow> (\<exists>r. fst (runBenchmark encode sc1 specs1 s1) = Inr r))"
proof -
  have a: "tools_cost encode META_TOOLS = Inr (metaToolsTokens r)"
    if "fst (runBenchmark encode sc specs s) = Inr r" for sc specs s r
    using that by (auto simp: runBenchmark_Inr benchmark_record_def)
  have b: "\<exists>counts. map (tool_tokens encode) META_TOOLS = map Inr counts
                \<and> metaToolsTokens r1 = sum_list counts"
    if "fst (runBenchmark encode sc1 specs1 s1) = Inr r1"
    using tools_cost_Inr [OF a [OF that]] .
  have c: "metaToolsTokens r1 = metaToolsTokens r2"
    if "fst (runBenchmark encode sc1 specs1 s1) = Inr r1"
      "fst (runBenchmark encode sc2 specs2 s2) = Inr r2"
    using a [OF that(1)] a [OF that(2)] by simp
  have d: "length META_TOOLS = 4"
    by (simp add: META_TOOLS_def)
  show ?thesis
    using a b c d runBenchmark_returns [of encode specs1 sc1 s1] by blast
qed

text \<open>The same cost with no catalog and with a synthetic catalog of fifty operations.\<close>

theorem metaToolsTokens_constant_witness:
  "\<exists>r1 r2. fst (runBenchmark codeunit_encode (js ''none'') [] initial_state) = Inr r1
     \<and> fst (runBenchmark codeunit_encode (js ''Service A'')
          [(js ''Service A'', Catalog (generateSyntheticSpec 50))] (freeEncoder initial_state))
         = Inr r2
     \<and> metaToolsTokens r1 = metaToolsTokens r2"
proof -
  obtain r1 where r1: "fst (runBenchmark codeunit_encode (js ''none'') [] initial_state) = Inr r1"
    using runBenchmark_returns [OF codeunit_encode_returns, of "[]"] by auto
  obtain r2 where r2: "fst (runBenchmark codeunit_encode (js ''Service A'')
          [(js ''Service A'', Catalog (generateSyntheticSpec 50))] (freeEncoder initial_state))
         = Inr r2"
    using runBenchmark_returns [OF codeunit_encode_returns,
        of "[(js ''Service A'', Catalog (generateSyntheticSpec 50))]"] by auto
  show ?thesis
    using r1 r2 metaToolsTokens_constant
      [of codeunit_encode "js ''none''" "[]" initial_state r1 "js ''Service A''"
        "[(js ''Service A'', Catalog (generateSyntheticSpec 50))]" "freeEncoder initial_state" r2]
    by blast
qed

text \<open>
  C10. For every sequence of catalogs, the result that \<open>runBenchmark\<close> returns has
  \<open>percentageSaved\<close> below 100: the four tools of \<open>META_TOOLS\<close> cost at least one token, so
  \<open>tokensSaved\<close> is below \<open>fullExpansionTokens\<close> when that is positive, and
  \<open>percentageSaved\<close> is 0 otherwise. The encoder is a parameter; it is assumed to give
  at least one token to a text that is not empty, when it returns. A run returns a result
  whenever the encoder returns on every text and every document has \<open>paths\<close>.
\<close>

theorem percentageSaved_below_100:
  assumes "\<And>t tokens. t \<noteq> [] \<Longrightarrow> encode t = Inr tokens \<Longrightarrow> tokens \<noteq> []"
  shows "(fst (runBenchmark encode sc specs s) = Inr r
            \<longrightarrow> percentageSaved r < 100
                \<and> 0 < metaToolsTokens r
                \<and> tokensSaved r < int (fullExpansionTokens r)
                \<and> (fullExpansionTokens r = 0 \<longrightarrow> percentageSaved r = 0))
         \<and> ((\<forall>t. \<exists>tokens. encode t = Inr tokens)
              \<and> (\<forall>entry\<in>set specs. \<exists>spec. snd entry = Catalog spec)
            \<longrightarrow> (\<exists>r. fst (runBenchmark encode sc specs s) = Inr r))"
proof -
  have bound: "(real_of_int (int f - int meta) / real f) * 100 < 100" if "0 < f" "0 < meta"
    for f meta :: nat
  proof -
    have "real_of_int (int f - int meta) < real f"
      using that by simp
    then have "real_of_int (int f - int meta) / real f < 1"
      using that by simp
    then have "real_of_int (int f - int meta) / real f * 100 < 1 * 100"
      by (rule mult_strict_right_mono) simp
    then show ?thesis by (simp only: mult_1)
  qed
  have "percentageSaved r < 100 \<and> 0 < metaToolsTokens r
        \<and> tokensSaved r < int (fullExpansionTokens r)
        \<and> (fullExpansionTokens r = 0 \<longrightarrow> percentageSaved r = 0)"
    if "fst (runBenchmark encode sc specs s) = Inr r"
  proof -
    from that obtain meta cnt full where m: "tools_cost encode META_TOOLS = Inr meta"
      and r: "r = benchmark_record sc (length specs) cnt meta full"
      unfolding runBenchmark_Inr by blast
    have "0 < meta"
      by (rule meta_cost_pos [OF assms m])
    then show ?thesis
      using bound [of full meta] by (simp add: r benchmark_record_def)
  qed
  then show ?thesis
    using runBenchmark_returns [of encode specs sc s] by blast
qed

text \<open>The bound at the catalog of the four meta-tools, counted by code units.\<close>

theorem percentageSaved_below_100_witness:
  "\<exists>r. fst (runBenchmark codeunit_encode (js ''Meta'') [(js ''Meta'', Catalog meta_catalog)]
           initial_state) = Inr r
     \<and> percentageSaved r < 100 \<and> 0 < metaToolsTokens r"
proof -
  obtain r where r: "fst (runBenchmark codeunit_encode (js ''Meta'')
      [(js ''Meta'', Catalog meta_catalog)] initial_state) = Inr r"
    using runBenchmark_returns [OF codeunit_encode_returns,
        of "[(js ''Meta'', Catalog meta_catalog)]"] by auto
  have "percentageSaved r < 100 \<and> 0 < metaToolsTokens r
      \<and> tokensSaved r < int (fullExpansionTokens r)
      \<and> (fullExpansionTokens r = 0 \<longrightarrow> percentageSaved r = 0)"
  proof (rule percentageSaved_below_100 [of codeunit_encode "js ''Meta''"
        "[(js ''Meta'', Catalog meta_catalog)]" initial_state r, THEN conjunct1, THEN mp])
    show "\<And>t tokens. t \<noteq> [] \<Longrightarrow> codeunit_encode t = Inr tokens \<Longrightarrow> tokens \<noteq> []"
      by (rule codeunit_encode_not_empty)
    show "fst (runBenchmark codeunit_encode (js ''Meta'') [(js ''Meta'', Catalog meta_catalog)]
        initial_state) = Inr r"
      by (rule r)
  qed
  then have "percentageSaved r < 100 \<and> 0 < metaToolsTokens r"
    by simp
  with r show ?thesis
    by (rule_tac x = r in exI) (rule conjI)
qed

text \<open>
  C6, as the specification states it, fails: the catalog \<open>meta_catalog\<close> normalizes to
  the four tools of \<open>META_TOOLS\<close>, so its expansion costs what the meta-tools cost,
  nothing is saved and \<open>percentageSaved\<close> is 0 although \<open>fullExpansionTokens\<close> is not.
\<close>

theorem percentageSaved_zero_not_only_empty:
  "\<exists>r. fst (runBenchmark codeunit_encode (js ''Meta'') [(js ''Meta'', Catalog meta_catalog)]
           initial_state) = Inr r
     \<and> percentageSaved r = 0 \<and> fullExpansionTokens r \<noteq> 0 \<and> totalTools r = 4"
proof -
  obtain meta where m: "tools_cost codeunit_encode META_TOOLS = Inr meta"
    using tools_cost_returns [OF codeunit_encode_returns] by blast
  have "0 < meta"
    by (rule meta_cost_pos [OF codeunit_encode_not_empty m])
  moreover have "catalogs_cost codeunit_encode [(js ''Meta'', Catalog meta_catalog)] = Inr (4, meta)"
    by (simp only: meta_catalog_cost m sum.case)
  ultimately show ?thesis
    by (simp add: runBenchmark_result m benchmark_record_def del: catalogs_cost.simps)
qed

text \<open>
  C6, amended. In every result that \<open>runBenchmark\<close> returns, \<open>percentageSaved\<close> is
  \<open>tokensSaved / fullExpansionTokens * 100\<close> when \<open>fullExpansionTokens\<close> is positive and 0
  when it is 0; and it is 0 exactly when \<open>fullExpansionTokens\<close> is 0 or equals
  \<open>metaToolsTokens\<close> (nothing is saved). The division raises nothing: a run that throws
  throws an exception of the encoder or the \<open>TypeError\<close> of a document without \<open>paths\<close>,
  and a run returns a result whenever the encoder returns on every text and every
  document has \<open>paths\<close>.
\<close>

theorem percentageSaved_zero_iff:
  "(fst (runBenchmark encode sc specs s) = Inr r
      \<longrightarrow> (if 0 < fullExpansionTokens r
           then percentageSaved r
                  = real_of_int (tokensSaved r) / real (fullExpansionTokens r) * 100
           else percentageSaved r = 0)
          \<and> tokensSaved r = int (fullExpansionTokens r) - int (metaToolsTokens r)
          \<and> (percentageSaved r = 0)
              = (fullExpansionTokens r = 0 \<or> fullExpansionTokens r = metaToolsTokens r))
   \<and> (fst (runBenchmark encode sc specs s) = Inl e
      \<longrightarrow> (\<exists>t. encode t = Inl e)
          \<or> (e = TypeError \<and> (\<exists>entry\<in>set specs. \<exists>i. snd entry = NoPaths i)))
   \<and> ((\<forall>t. \<exists>tokens. encode t = Inr tokens)
        \<and> (\<forall>entry\<in>set specs. \<exists>spec. snd entry = Catalog spec)
      \<longrightarrow> (\<exists>r. fst (runBenchmark encode sc specs s) = Inr r))"
proof -
  have a: "(if 0 < fullExpansionTokens r
           then percentageSaved r
                  = real_of_int (tokensSaved r) / real (fullExpansionTokens r) * 100
           else percentageSaved r = 0)
          \<and> tokensSaved r = int (fullExpansionTokens r) - int (metaToolsTokens r)
          \<and> (percentageSaved r = 0)
              = (fullExpansionTokens r = 0 \<or> fullExpansionTokens r = metaToolsTokens r)"
    if "fst (runBenchmark encode sc specs s) = Inr r"
  proof -
    from that obtain meta cnt full where
      r: "r = benchmark_record sc (length specs) cnt meta full"
      unfolding runBenchmark_Inr by blast
    show ?thesis
      by (simp add: r benchmark_record_def)
  qed
  show ?thesis
    using a runBenchmark_Inl [of encode sc specs s e] runBenchmark_returns [of encode specs sc s]
    by blast
qed

text \<open>The two cases of a percentage of 0: no catalog, and a catalog that saves nothing.\<close>

theorem percentageSaved_zero_iff_witness:
  "\<exists>r1 r2. fst (runBenchmark codeunit_encode (js ''none'') [] initial_state) = Inr r1
     \<and> percentageSaved r1 = 0 \<and> fullExpansionTokens r1 = 0
     \<and> fst (runBenchmark codeunit_encode (js ''Meta'') [(js ''Meta'', Catalog meta_catalog)]
          initial_state) = Inr r2
     \<and> percentageSaved r2 = 0 \<and> fullExpansionTokens r2 = metaToolsTokens r2"
proof -
  obtain meta where m: "tools_cost codeunit_encode META_TOOLS = Inr meta"
    using tools_cost_returns [OF codeunit_encode_returns] by blast
  have r1: "fst (runBenchmark codeunit_encode (js ''none'') [] initial_state)
      = Inr (benchmark_record (js ''none'') 0 0 meta 0)"
    by (simp add: runBenchmark_result m)
  have c: "catalogs_cost codeunit_encode [(js ''Meta'', Catalog meta_catalog)] = Inr (4, meta)"
    by (simp only: meta_catalog_cost m sum.case)
  have r2: "fst (runBenchmark codeunit_encode (js ''Meta'') [(js ''Meta'', Catalog meta_catalog)]
          initial_state) = Inr (benchmark_record (js ''Meta'') 1 4 meta meta)"
    by (simp add: runBenchmark_result m c del: catalogs_cost.simps)
  have a: "fullExpansionTokens (benchmark_record (js ''none'') 0 0 meta 0) = 0"
    by (simp add: benchmark_record_def)
  have b: "fullExpansionTokens (benchmark_record (js ''Meta'') 1 4 meta meta)
      = metaToolsTokens (benchmark_record (js ''Meta'') 1 4 meta meta)"
    by (simp add: benchmark_record_def)
  show ?thesis
    using r1 r2 a b
      percentageSaved_zero_iff [of codeunit_encode "js ''none''" "[]" initial_state
        "benchmark_record (js ''none'') 0 0 meta 0"]
      percentageSaved_zero_iff [of codeunit_encode "js ''Meta''"
        "[(js ''Meta'', Catalog meta_catalog)]" initial_state
        "benchmark_record (js ''Meta'') 1 4 meta meta"]
    by blast
qed

section \<open>Loading the sample catalogs\<close>

lemma load_files_eq:
  "load_files (load_file dir) files specs =
     (specs @ concat (map (catalog_of dir) (takeWhile (available dir) files)),
      if list_all (available dir) files then [] else [CouldNotLoadSampleSpecs])"
proof (induction files arbitrary: specs)
  case Nil
  then show ?case by simp
next
  case (Cons f files)
  show ?case
  proof (cases "load_file dir f")
    case (Inl e)
    then show ?thesis by (simp add: available_def)
  next
    case (Inr spec)
    then show ?thesis by (simp add: Cons.IH available_def catalog_of_def)
  qed
qed

lemma loadSampleSpecs_eq:
  "loadSampleSpecs dir =
     (concat (map (catalog_of dir) (takeWhile (available dir) (json_files dir))),
      if listing_failed dir \<or> \<not> list_all (available dir) (json_files dir)
      then [CouldNotLoadSampleSpecs] else [])"
  by (cases "readdirSync dir")
     (simp_all add: loadSampleSpecs_def json_files_def listing_failed_def load_files_eq)

lemma runBenchmark_cell_independent:
  "fst (runBenchmark encode sc specs s) = fst (runBenchmark encode sc specs s')"
  by (simp add: runBenchmark_result)

lemma run_scenarios_fst:
  "fst (run_scenarios encode scs rs s)
     = (case scenario_results encode scs of Inl e \<Rightarrow> Inl e | Inr rs' \<Rightarrow> Inr (rs @ rs'))"
proof (induction scs arbitrary: rs s)
  case Nil
  then show ?case by simp
next
  case (Cons sc scs)
  obtain x s' where b: "runBenchmark encode (fst sc) (snd sc) s = (x, s')"
    by (cases "runBenchmark encode (fst sc) (snd sc) s")
  then have x: "fst (runBenchmark encode (fst sc) (snd sc) initial_state) = x"
    using runBenchmark_cell_independent [of encode "fst sc" "snd sc" s initial_state] by simp
  show ?case
  proof (cases x)
    case (Inl e)
    then show ?thesis by (simp add: b x)
  next
    case (Inr r)
    then show ?thesis
      using Cons.IH [of "rs @ [r]" s'] by (simp add: b x split: sum.splits)
  qed
qed

lemma main_results:
  "fst (main encode dir) = scenario_results encode (scenarios (fst (loadSampleSpecs dir)))"
proof -
  obtain specs w where l: "loadSampleSpecs dir = (specs, w)"
    by (cases "loadSampleSpecs dir")
  obtain x s where r: "run_scenarios encode (scenarios specs) [] initial_state = (x, s)"
    by (cases "run_scenarios encode (scenarios specs) [] initial_state")
  have "fst (run_scenarios encode (scenarios specs) [] initial_state)
      = scenario_results encode (scenarios specs)"
    by (simp add: run_scenarios_fst split: sum.splits)
  then have x: "scenario_results encode (scenarios specs) = x"
    by (simp add: r)
  show ?thesis
    using x by (cases x) (simp_all add: main_def l r)
qed

lemma main_warnings: "fst (snd (main encode dir)) = snd (loadSampleSpecs dir)"
  by (simp add: main_def split: prod.splits sum.splits)

text \<open>The results of the scenarios, one for each, and the first exception.\<close>

lemma scenario_results_Inr:
  "scenario_results encode scs = Inr rs
     \<Longrightarrow> list_all2 (\<lambda>sc r. fst (runBenchmark encode (fst sc) (snd sc) initial_state) = Inr r) scs rs"
proof (induction scs arbitrary: rs)
  case Nil
  then show ?case by simp
next
  case (Cons sc scs)
  from Cons.prems obtain r rs' where
    "fst (runBenchmark encode (fst sc) (snd sc) initial_state) = Inr r"
    "scenario_results encode scs = Inr rs'" "rs = r # rs'"
    by (auto split: sum.splits)
  then show ?case
    using Cons.IH [of rs'] by simp
qed

lemma scenario_results_returns:
  "\<forall>sc\<in>set scs. \<exists>r. fst (runBenchmark encode (fst sc) (snd sc) initial_state) = Inr r
     \<Longrightarrow> \<exists>rs. scenario_results encode scs = Inr rs"
proof (induction scs)
  case Nil
  then show ?case by simp
next
  case (Cons sc scs)
  then obtain r rs where "fst (runBenchmark encode (fst sc) (snd sc) initial_state) = Inr r"
    "scenario_results encode scs = Inr rs"
    by auto
  then show ?case by simp
qed

lemma scenario_results_append_Inl:
  "scenario_results encode xs = Inl e \<Longrightarrow> scenario_results encode (xs @ ys) = Inl e"
  by (induction xs) (auto split: sum.splits)

lemma result_triple:
  assumes "fst (runBenchmark encode sc specs s) = Inr r"
  shows "scenario r = sc \<and> projectCount r = length specs
         \<and> totalTools r = length (catalog_tools specs)"
proof -
  from assms obtain meta cnt full where c: "catalogs_cost encode specs = Inr (cnt, full)"
    and r: "r = benchmark_record sc (length specs) cnt meta full"
    unfolding runBenchmark_Inr by blast
  show ?thesis
    using catalogs_cost_Inr [OF c] by (simp add: r benchmark_record_def)
qed

lemma scenario_results_triples:
  "scenario_results encode scs = Inr rs
     \<Longrightarrow> map (\<lambda>r. (scenario r, projectCount r, totalTools r)) rs
         = map (\<lambda>sc. (fst sc, length (snd sc), length (catalog_tools (snd sc)))) scs"
proof (induction scs arbitrary: rs)
  case Nil
  then show ?case by simp
next
  case (Cons sc scs)
  from Cons.prems obtain r rs' where
    r: "fst (runBenchmark encode (fst sc) (snd sc) initial_state) = Inr r"
    and rs': "scenario_results encode scs = Inr rs'" and rs: "rs = r # rs'"
    by (auto split: sum.splits)
  show ?case
    using result_triple [OF r] Cons.IH [OF rs'] by (simp add: rs)
qed

text \<open>A document without \<open>paths\<close> among the catalogs ends the run of its own scenario.\<close>

lemma single_no_paths:
  assumes "\<forall>t. \<exists>tokens. encode t = Inr tokens" and "snd entry = NoPaths i"
  shows "fst (runBenchmark encode sc [entry] s) = Inl TypeError"
proof -
  obtain meta where m: "tools_cost encode META_TOOLS = Inr meta"
    using tools_cost_returns [OF assms(1)] by blast
  show ?thesis
    by (simp add: runBenchmark_result m assms(2))
qed

lemma singles_abort:
  assumes "\<forall>t. \<exists>tokens. encode t = Inr tokens"
  shows "\<exists>entry\<in>set specs. \<exists>i. snd entry = NoPaths i
     \<Longrightarrow> scenario_results encode
           (map (\<lambda>spec. (js ''Single API ('' @ fst spec @ js '')'', [spec])) specs)
         = Inl TypeError"
proof (induction specs)
  case Nil
  then show ?case by simp
next
  case (Cons entry specs)
  show ?case
  proof (cases "snd entry")
    case (Catalog spec)
    then have "\<forall>e\<in>set [entry]. \<exists>spec. snd e = Catalog spec"
      by simp
    then obtain r where "fst (runBenchmark encode (js ''Single API ('' @ fst entry @ js '')'')
        [entry] initial_state) = Inr r"
      using runBenchmark_returns [OF assms] by blast
    moreover have "\<exists>entry\<in>set specs. \<exists>i. snd entry = NoPaths i"
      using Cons.prems Catalog by auto
    ultimately show ?thesis
      using Cons.IH by simp
  next
    case (NoPaths i)
    then show ?thesis
      by (simp add: single_no_paths [OF assms])
  qed
qed

lemma synthetic_services_catalogs:
  "\<forall>entry\<in>set (synthetic_services n base step). \<exists>spec. snd entry = Catalog spec"
  by (auto simp: synthetic_services_def)

lemma scenarios_entries:
  assumes "sc \<in> set (scenarios specs)" and "entry \<in> set (snd sc)"
  shows "entry \<in> set specs \<or> entry \<in> set (synthetic_services 7 20 5)
         \<or> entry \<in> set (synthetic_services 17 25 3)
         \<or> entry = (js ''Service A'', Catalog (generateSyntheticSpec 50))
         \<or> entry = (js ''Service B'', Catalog (generateSyntheticSpec 40))"
proof -
  have t: "entry \<in> set (take n specs) \<Longrightarrow> entry \<in> set specs" for n
    by (rule in_set_takeD)
  have "(\<exists>spec\<in>set specs. snd sc = [spec]) \<or> snd sc = take 2 specs \<or> snd sc = take 3 specs
      \<or> snd sc = take 3 specs @ [(js ''Service A'', Catalog (generateSyntheticSpec 50)),
              (js ''Service B'', Catalog (generateSyntheticSpec 40))]
      \<or> snd sc = specs @ synthetic_services 7 20 5
      \<or> snd sc = specs @ synthetic_services 17 25 3"
    using assms(1) by (auto simp: scenarios_def split: if_splits)
  then show ?thesis
    using assms(2) t [of 2] t [of 3] by (elim disjE) auto
qed

lemma scenarios_catalogs:
  assumes "\<forall>entry\<in>set specs. \<exists>spec. snd entry = Catalog spec"
  shows "\<forall>sc\<in>set (scenarios specs). \<forall>entry\<in>set (snd sc). \<exists>spec. snd entry = Catalog spec"
proof (intro ballI)
  fix sc entry
  assume "sc \<in> set (scenarios specs)" "entry \<in> set (snd sc)"
  then have "entry \<in> set specs \<or> entry \<in> set (synthetic_services 7 20 5)
         \<or> entry \<in> set (synthetic_services 17 25 3)
         \<or> entry = (js ''Service A'', Catalog (generateSyntheticSpec 50))
         \<or> entry = (js ''Service B'', Catalog (generateSyntheticSpec 40))"
    by (rule scenarios_entries)
  then show "\<exists>spec. snd entry = Catalog spec"
    using assms synthetic_services_catalogs [of 7 20 5] synthetic_services_catalogs [of 17 25 3]
    by auto
qed

lemma main_returns:
  assumes "\<forall>t. \<exists>tokens. encode t = Inr tokens"
    and "\<forall>entry\<in>set (fst (loadSampleSpecs dir)). \<exists>spec. snd entry = Catalog spec"
  shows "\<exists>results. fst (main encode dir) = Inr results"
  unfolding main_results
proof (rule scenario_results_returns, rule ballI)
  fix sc
  assume "sc \<in> set (scenarios (fst (loadSampleSpecs dir)))"
  then have "\<forall>entry\<in>set (snd sc). \<exists>spec. snd entry = Catalog spec"
    using scenarios_catalogs [OF assms(2)] by blast
  then show "\<exists>r. fst (runBenchmark encode (fst sc) (snd sc) initial_state) = Inr r"
    by (rule runBenchmark_returns [OF assms(1)])
qed

lemma main_aborts:
  assumes "\<forall>t. \<exists>tokens. encode t = Inr tokens"
    and "\<exists>entry\<in>set (fst (loadSampleSpecs dir)). \<exists>i. snd entry = NoPaths i"
  shows "fst (main encode dir) = Inl TypeError"
  unfolding main_results scenarios_def
  by (rule scenario_results_append_Inl) (rule singles_abort [OF assms])

text \<open>The numbers of tools of the synthetic services of the three scenarios.\<close>

lemma catalog_tools_append: "catalog_tools (a @ b) = catalog_tools a @ catalog_tools b"
  by (simp add: catalog_tools_def)

lemma medium_org_tools:
  "length (catalog_tools [(a, Catalog (generateSyntheticSpec 50)),
      (b, Catalog (generateSyntheticSpec 40))]) = 90"
  by (simp add: catalog_tools_def synthetic_tools_count)

lemma large_org_tools: "length (catalog_tools (synthetic_services 7 20 5)) = 245"
proof -
  have u: "[0..<7] = [0, 1, 2, 3, 4, 5, 6]"
    by (simp add: upt_rec)
  show ?thesis
    by (simp add: synthetic_services_def u catalog_tools_def synthetic_tools_count)
qed

lemma enterprise_tools: "length (catalog_tools (synthetic_services 17 25 3)) = 833"
proof -
  have u: "[0..<17] = [0, 1, 2, 3, 4, 5, 6, 7, 8, 9, 10, 11, 12, 13, 14, 15, 16]"
    by (simp add: upt_rec)
  show ?thesis
    by (simp add: synthetic_services_def u catalog_tools_def synthetic_tools_count)
qed

lemma ends_with_json:
  "ends_with (js ''broken.json'') (js ''.json'')" "ends_with (js ''meta.json'') (js ''.json'')"
  "ends_with (js ''petstore.json'') (js ''.json'')"
  by (simp_all add: ends_with_def js_def)

lemma js_names_differ: "js ''broken.json'' \<noteq> js ''meta.json''"
  by (simp add: js_def)

text \<open>
  C3. The code does not do what the claim states. \<open>loadSampleSpecs\<close> has one \<open>try\<close> around
  the whole loop: it keeps the catalogs of the documents that come before the first
  unavailable one in the order of the directory, warns once, and reads no document after
  it, so the catalogs of the available documents listed after the bad one are dropped
  with it. \<open>main\<close> writes the warnings of the loader and, when it returns, reports the
  scenarios of the catalogs kept, with their numbers of catalogs and of tools. A
  document that has \<open>info\<close> and no \<open>paths\<close> is neither skipped nor warned about: the loader
  keeps it, and \<open>main\<close> then ends with the \<open>TypeError\<close> of its scenario and reports
  nothing. \<open>main\<close> returns results when the encoder returns on every text and every
  document kept has \<open>paths\<close>.
\<close>

theorem loader_stops_at_first_bad_document:
  "fst (loadSampleSpecs dir)
     = concat (map (catalog_of dir) (takeWhile (available dir) (json_files dir)))
   \<and> snd (loadSampleSpecs dir)
     = (if listing_failed dir \<or> \<not> list_all (available dir) (json_files dir)
        then [CouldNotLoadSampleSpecs] else [])
   \<and> fst (snd (main encode dir)) = snd (loadSampleSpecs dir)
   \<and> (fst (main encode dir) = Inr results
      \<longrightarrow> map (\<lambda>r. (scenario r, projectCount r, totalTools r)) results
          = map (\<lambda>sc. (fst sc, length (snd sc), length (catalog_tools (snd sc))))
              (scenarios (fst (loadSampleSpecs dir))))
   \<and> ((\<forall>t. \<exists>tokens. encode t = Inr tokens)
        \<and> (\<exists>entry\<in>set (fst (loadSampleSpecs dir)). \<exists>i. snd entry = NoPaths i)
      \<longrightarrow> fst (main encode dir) = Inl TypeError)
   \<and> ((\<forall>t. \<exists>tokens. encode t = Inr tokens)
        \<and> (\<forall>entry\<in>set (fst (loadSampleSpecs dir)). \<exists>spec. snd entry = Catalog spec)
      \<longrightarrow> (\<exists>rs. fst (main encode dir) = Inr rs))"
proof -
  have a: "fst (loadSampleSpecs dir)
     = concat (map (catalog_of dir) (takeWhile (available dir) (json_files dir)))"
    by (simp add: loadSampleSpecs_eq)
  have b: "snd (loadSampleSpecs dir)
     = (if listing_failed dir \<or> \<not> list_all (available dir) (json_files dir)
        then [CouldNotLoadSampleSpecs] else [])"
    by (simp add: loadSampleSpecs_eq)
  have c: "fst (main encode dir) = Inr results
      \<longrightarrow> map (\<lambda>r. (scenario r, projectCount r, totalTools r)) results
          = map (\<lambda>sc. (fst sc, length (snd sc), length (catalog_tools (snd sc))))
              (scenarios (fst (loadSampleSpecs dir)))"
    unfolding main_results by (rule impI) (rule scenario_results_triples)
  show ?thesis
    using a b c main_warnings [of encode dir] main_aborts [of encode dir]
      main_returns [of encode dir]
    by blast
qed

text \<open>
  The directory \<open>broken_first_dir\<close> lists \<open>broken.json\<close>, which is corrupt, and then
  \<open>meta.json\<close>, which is available: the loader returns no catalog, with one warning, and
  \<open>main\<close> reports the three scenarios of the synthetic services alone. The directory
  \<open>no_paths_dir\<close> holds one document without \<open>paths\<close>: the loader keeps it without a
  warning and \<open>main\<close> ends with a \<open>TypeError\<close>.
\<close>

theorem loader_stops_at_first_bad_document_witness:
  "json_files broken_first_dir = [js ''broken.json'', js ''meta.json'']
   \<and> map (available broken_first_dir) (json_files broken_first_dir) = [False, True]
   \<and> catalog_of broken_first_dir (js ''meta.json'') = [(js ''Meta'', Catalog meta_catalog)]
   \<and> loadSampleSpecs broken_first_dir = ([], [CouldNotLoadSampleSpecs])
   \<and> fst (snd (main codeunit_encode broken_first_dir)) = [CouldNotLoadSampleSpecs]
   \<and> (\<exists>results. fst (main codeunit_encode broken_first_dir) = Inr results
        \<and> map (\<lambda>r. (scenario r, projectCount r, totalTools r)) results
            = [(js ''Medium org (5 APIs)'', 2, 90),
               (js ''Large org (10 APIs)'', 7, 245),
               (js ''Enterprise (20 APIs)'', 17, 833)])
   \<and> fst (loadSampleSpecs no_paths_dir)
       = [(js ''Petstore'',
           NoPaths \<lparr> title = js ''Petstore'', info_description = None, version = js ''1.0.0'' \<rparr>)]
   \<and> snd (loadSampleSpecs no_paths_dir) = []
   \<and> fst (main codeunit_encode no_paths_dir) = Inl TypeError"
proof -
  have f: "json_files broken_first_dir = [js ''broken.json'', js ''meta.json'']"
    by (simp add: json_files_def broken_first_dir_def ends_with_json)
  have a: "\<not> available broken_first_dir (js ''broken.json'')"
    "available broken_first_dir (js ''meta.json'')"
    by (simp_all add: available_def broken_first_dir_def js_names_differ)
  have c: "catalog_of broken_first_dir (js ''meta.json'') = [(js ''Meta'', Catalog meta_catalog)]"
    by (simp add: catalog_of_def broken_first_dir_def meta_catalog_def)
  have l: "fst (loadSampleSpecs broken_first_dir) = []"
    "snd (loadSampleSpecs broken_first_dir) = [CouldNotLoadSampleSpecs]"
    using loader_stops_at_first_bad_document [of broken_first_dir] f a
    by simp_all
  have w: "fst (snd (main codeunit_encode broken_first_dir)) = [CouldNotLoadSampleSpecs]"
    using loader_stops_at_first_bad_document [of broken_first_dir codeunit_encode] l by simp
  obtain results where r: "fst (main codeunit_encode broken_first_dir) = Inr results"
    using main_returns [OF codeunit_encode_returns, of broken_first_dir] l
    by auto
  have s: "map (\<lambda>sc. (fst sc, length (snd sc), length (catalog_tools (snd sc)))) (scenarios [])
      = [(js ''Medium org (5 APIs)'', 2, 90),
         (js ''Large org (10 APIs)'', 7, 245),
         (js ''Enterprise (20 APIs)'', 17, 833)]"
    by (simp add: scenarios_def medium_org_tools large_org_tools enterprise_tools)
       (simp add: synthetic_services_def)
  have t: "map (\<lambda>r. (scenario r, projectCount r, totalTools r)) results
            = [(js ''Medium org (5 APIs)'', 2, 90),
               (js ''Large org (10 APIs)'', 7, 245),
               (js ''Enterprise (20 APIs)'', 17, 833)]"
    using loader_stops_at_first_bad_document [of broken_first_dir codeunit_encode results] r l s
    by simp
  have g: "json_files no_paths_dir = [js ''petstore.json'']"
    by (simp add: json_files_def no_paths_dir_def ends_with_json)
  have h: "available no_paths_dir (js ''petstore.json'')"
    "catalog_of no_paths_dir (js ''petstore.json'')
       = [(js ''Petstore'',
           NoPaths \<lparr> title = js ''Petstore'', info_description = None, version = js ''1.0.0'' \<rparr>)]"
    "\<not> listing_failed no_paths_dir"
    by (simp_all add: available_def catalog_of_def listing_failed_def no_paths_dir_def)
  have n: "fst (loadSampleSpecs no_paths_dir)
       = [(js ''Petstore'',
           NoPaths \<lparr> title = js ''Petstore'', info_description = None, version = js ''1.0.0'' \<rparr>)]"
    "snd (loadSampleSpecs no_paths_dir) = []"
    using loader_stops_at_first_bad_document [of no_paths_dir] g h
    by simp_all
  have e: "fst (main codeunit_encode no_paths_dir) = Inl TypeError"
    using loader_stops_at_first_bad_document [of no_paths_dir codeunit_encode] n
      codeunit_encode_returns
    by simp
  show ?thesis
    using f a c l w r t n e by (simp add: prod_eq_iff)
qed

section \<open>The fair comparison\<close>

lemma first_text_not_empty: "first_text texts \<noteq> []"
  by (simp add: first_text_def js_def split: list.splits)

lemma live_result_fair:
  "metaToolsWorkflow (fairComparison (live_result url d a b c)) = 426 * 3 + a + b + c"
  "metaToolDefinitions (tokenMeasurements (live_result url d a b c)) = 426"
  "listServicesResponse (tokenMeasurements (live_result url d a b c)) = a"
  "searchToolsResponse (tokenMeasurements (live_result url d a b c)) = b"
  "describeToolsResponse (tokenMeasurements (live_result url d a b c)) = c"
  "tools_total (tools_summary (live_result url d a b c)) = sum_list (map toolCount (services d))"
  "fullExpansion (fairComparison (live_result url d a b c))
     = sum_list (map toolCount (services d)) * 140"
  "fullExpansionEstimate (tokenMeasurements (live_result url d a b c))
     = sum_list (map toolCount (services d)) * 140"
  "difference (fairComparison (live_result url d a b c))
     = sum_list (map toolCount (services d)) * 140 - (426 * 3 + a + b + c)"
  by (simp_all add: live_result_def Let_def META_TOOLS_TOKENS_def)

lemma runLiveBenchmark_Inr:
  assumes "runLiveBenchmark parser server url token = Inr r"
  shows "\<exists>raw1 d raw2 sd raw3.
           callTool server (js ''list_services'') (JObj []) = Inr raw1
         \<and> parse_ListServices parser (first_text raw1) = Inr d
         \<and> callTool server (js ''search_tools'')
               (JObj [(js ''query'', JStr (js ''create'')), (js ''limit'', JNum 50)]) = Inr raw2
         \<and> parse_SearchTools parser (first_text raw2) = Inr sd
         \<and> callTool server (js ''describe_tools'')
               (JObj [(js ''tools'',
                  JArr (map (\<lambda>t. JStr (found_name t)) (take 5 (found_tools sd))))]) = Inr raw3
         \<and> r = live_result url d (countTokens_live (first_text raw1))
                 (countTokens_live (first_text raw2)) (countTokens_live (first_text raw3))"
  using assms unfolding runLiveBenchmark_def
  by (auto split: sum.splits)

lemma live_fair_total:
  assumes "runLiveBenchmark parser server url token = Inr r"
  shows "(\<exists>raw1 d raw2 sd raw3.
           callTool server (js ''list_services'') (JObj []) = Inr raw1
         \<and> parse_ListServices parser (first_text raw1) = Inr d
         \<and> callTool server (js ''search_tools'')
               (JObj [(js ''query'', JStr (js ''create'')), (js ''limit'', JNum 50)]) = Inr raw2
         \<and> parse_SearchTools parser (first_text raw2) = Inr sd
         \<and> callTool server (js ''describe_tools'')
               (JObj [(js ''tools'',
                  JArr (map (\<lambda>t. JStr (found_name t)) (take 5 (found_tools sd))))]) = Inr raw3
         \<and> listServicesResponse (tokenMeasurements r) = countTokens_live (first_text raw1)
         \<and> searchToolsResponse (tokenMeasurements r) = countTokens_live (first_text raw2)
         \<and> describeToolsResponse (tokenMeasurements r) = countTokens_live (first_text raw3)
         \<and> tools_total (tools_summary r) = sum_list (map toolCount (services d)))
       \<and> metaToolsWorkflow (fairComparison r)
           = 426 * 3
             + listServicesResponse (tokenMeasurements r)
             + searchToolsResponse (tokenMeasurements r)
             + describeToolsResponse (tokenMeasurements r)
       \<and> metaToolDefinitions (tokenMeasurements r) = 426
       \<and> fullExpansion (fairComparison r) = tools_total (tools_summary r) * 140
       \<and> fullExpansionEstimate (tokenMeasurements r) = tools_total (tools_summary r) * 140
       \<and> difference (fairComparison r)
           = fullExpansion (fairComparison r) - metaToolsWorkflow (fairComparison r)
       \<and> 1 \<le> listServicesResponse (tokenMeasurements r)"
proof -
  obtain raw1 d raw2 sd raw3 where
    c: "callTool server (js ''list_services'') (JObj []) = Inr raw1"
      "parse_ListServices parser (first_text raw1) = Inr d"
      "callTool server (js ''search_tools'')
         (JObj [(js ''query'', JStr (js ''create'')), (js ''limit'', JNum 50)]) = Inr raw2"
      "parse_SearchTools parser (first_text raw2) = Inr sd"
      "callTool server (js ''describe_tools'')
         (JObj [(js ''tools'',
            JArr (map (\<lambda>t. JStr (found_name t)) (take 5 (found_tools sd))))]) = Inr raw3"
    and r: "r = live_result url d (countTokens_live (first_text raw1))
              (countTokens_live (first_text raw2)) (countTokens_live (first_text raw3))"
    using runLiveBenchmark_Inr [OF assms] by blast
  have m: "listServicesResponse (tokenMeasurements r) = countTokens_live (first_text raw1)"
    "searchToolsResponse (tokenMeasurements r) = countTokens_live (first_text raw2)"
    "describeToolsResponse (tokenMeasurements r) = countTokens_live (first_text raw3)"
    "tools_total (tools_summary r) = sum_list (map toolCount (services d))"
    unfolding r by (rule live_result_fair)+
  have f: "metaToolsWorkflow (fairComparison r)
           = 426 * 3
             + listServicesResponse (tokenMeasurements r)
             + searchToolsResponse (tokenMeasurements r)
             + describeToolsResponse (tokenMeasurements r)"
    "metaToolDefinitions (tokenMeasurements r) = 426"
    "fullExpansion (fairComparison r) = tools_total (tools_summary r) * 140"
    "fullExpansionEstimate (tokenMeasurements r) = tools_total (tools_summary r) * 140"
    "difference (fairComparison r)
           = fullExpansion (fairComparison r) - metaToolsWorkflow (fairComparison r)"
    unfolding r live_result_fair by simp_all
  have p: "1 \<le> listServicesResponse (tokenMeasurements r)"
    unfolding m by (rule countTokens_live_pos [OF first_text_not_empty])
  show ?thesis
    using c m f p by blast
qed

lemma find_Some_split:
  "find P xs = Some x \<Longrightarrow> \<exists>pre post. xs = pre @ x # post \<and> (\<forall>p\<in>set pre. \<not> P p) \<and> P x"
proof (induction xs)
  case Nil
  then show ?case by simp
next
  case (Cons a xs)
  show ?case
  proof (cases "P a")
    case True
    then have "a # xs = [] @ x # xs \<and> (\<forall>p\<in>set []. \<not> P p) \<and> P x"
      using Cons.prems by simp
    then show ?thesis by blast
  next
    case False
    then obtain pre post where "xs = pre @ x # post" "\<forall>p\<in>set pre. \<not> P p" "P x"
      using Cons by auto
    then have "a # xs = (a # pre) @ x # post \<and> (\<forall>p\<in>set (a # pre). \<not> P p) \<and> P x"
      using False by simp
    then show ?thesis by blast
  qed
qed

lemma printTerminal_fair_Some:
  assumes "printTerminal_fair results = Some rep"
  shows "\<exists>pre r post. results = pre @ r # post \<and> (\<forall>p\<in>set pre. totalTools p \<le> 100)
           \<and> 100 < totalTools r
           \<and> fair_scenario rep = scenario r
           \<and> metaWorkflowTotal rep = metaToolsTokens r * 3 + 300
           \<and> fullWorkflowTotal rep = fullExpansionTokens r
           \<and> fair_savings rep
               = int (fullExpansionTokens r) - int (metaToolsTokens r * 3 + 300)"
proof -
  obtain r where f: "find (\<lambda>r. totalTools r > 100) results = Some r" and
    rep: "rep = \<lparr> fair_scenario = scenario r,
                 metaWorkflowTotal = metaToolsTokens r * 3 + searchDescribeOverhead,
                 fullWorkflowTotal = fullExpansionTokens r,
                 fair_savings = int (fullExpansionTokens r)
                   - int (metaToolsTokens r * 3 + searchDescribeOverhead) \<rparr>"
    using assms by (auto simp: printTerminal_fair_def split: option.splits)
  obtain pre post where "results = pre @ r # post" "\<forall>p\<in>set pre. \<not> 100 < totalTools p"
    "100 < totalTools r"
    using find_Some_split [OF f] by blast
  then have "results = pre @ r # post \<and> (\<forall>p\<in>set pre. totalTools p \<le> 100)
           \<and> 100 < totalTools r
           \<and> fair_scenario rep = scenario r
           \<and> metaWorkflowTotal rep = metaToolsTokens r * 3 + 300
           \<and> fullWorkflowTotal rep = fullExpansionTokens r
           \<and> fair_savings rep
               = int (fullExpansionTokens r) - int (metaToolsTokens r * 3 + 300)"
    by (simp add: rep searchDescribeOverhead_def not_less)
  then show ?thesis by blast
qed

lemma printTerminal_fair_None:
  "(printTerminal_fair results = None) = (\<forall>r\<in>set results. totalTools r \<le> 100)"
proof
  assume "printTerminal_fair results = None"
  then have "find (\<lambda>r. totalTools r > 100) results = None"
    by (simp add: printTerminal_fair_def split: option.splits)
  then show "\<forall>r\<in>set results. totalTools r \<le> 100"
    by (auto simp: find_None_iff not_less)
next
  assume "\<forall>r\<in>set results. totalTools r \<le> 100"
  then have "find (\<lambda>r. totalTools r > 100) results = None"
    by (auto simp: find_None_iff not_less)
  then show "printTerminal_fair results = None"
    by (simp add: printTerminal_fair_def)
qed

lemma main_totalTools:
  assumes "fst (main encode dir) = Inr rs"
  shows "map totalTools rs
     = map (\<lambda>sc. length (catalog_tools (snd sc))) (scenarios (fst (loadSampleSpecs dir)))"
proof -
  have "map (\<lambda>r. (scenario r, projectCount r, totalTools r)) rs
      = map (\<lambda>sc. (fst sc, length (snd sc), length (catalog_tools (snd sc))))
          (scenarios (fst (loadSampleSpecs dir)))"
    using assms unfolding main_results by (rule scenario_results_triples)
  then have "map (\<lambda>t. snd (snd t)) (map (\<lambda>r. (scenario r, projectCount r, totalTools r)) rs)
      = map (\<lambda>t. snd (snd t))
          (map (\<lambda>sc. (fst sc, length (snd sc), length (catalog_tools (snd sc))))
            (scenarios (fst (loadSampleSpecs dir))))"
    by (rule arg_cong)
  then show ?thesis
    by (simp add: comp_def)
qed

lemma main_prints_fair:
  assumes "fst (main encode dir) = Inr rs"
  shows "printTerminal_fair rs \<noteq> None"
proof -
  let ?specs = "fst (loadSampleSpecs dir)"
  let ?large = "(js ''Large org (10 APIs)'', ?specs @ synthetic_services 7 20 5)"
  have "?large \<in> set (scenarios ?specs)"
    by (simp add: scenarios_def)
  then have "length (catalog_tools (snd ?large))
      \<in> set (map (\<lambda>sc. length (catalog_tools (snd sc))) (scenarios ?specs))"
    unfolding set_map by (rule imageI)
  then have "length (catalog_tools (snd ?large)) \<in> set (map totalTools rs)"
    by (simp only: main_totalTools [OF assms])
  then obtain r where r: "r \<in> set rs" "totalTools r = length (catalog_tools (snd ?large))"
    by auto
  have "100 < totalTools r"
    by (simp add: r catalog_tools_append large_org_tools)
  then show ?thesis
    using r(1) unfolding printTerminal_fair_None by force
qed

lemma linear_counts:
  "countTokens_live linear_services_text = 28"
  "countTokens_live linear_search_text = 29"
  "countTokens_live linear_describe_text = 40"
  by (simp_all add: countTokens_live_def linear_services_text_def linear_search_text_def
      linear_describe_text_def dq_def js_def is_structural_def split_ws_def blank_non_alnum_def
      is_alnum_def is_lower_def is_upper_def is_digit_def is_space_def)

lemma linear_texts_not_empty:
  "linear_services_text \<noteq> []" "linear_search_text \<noteq> []" "linear_describe_text \<noteq> []"
  by (simp_all add: linear_services_text_def linear_search_text_def linear_describe_text_def
      js_def)

lemma linear_run:
  "runLiveBenchmark linear_parser linear_server linear_url linear_token
     = Inr (live_result linear_url
         \<lparr> services =
             [\<lparr> service_name = js ''Linear'', slug = js ''linear'', toolCount = 9,
                 sampleTools = [] \<rparr>],
           services_total = 1 \<rparr> 28 29 40)"
proof -
  have n: "js ''search_tools'' \<noteq> js ''list_services''"
    "js ''describe_tools'' \<noteq> js ''list_services''"
    "js ''describe_tools'' \<noteq> js ''search_tools''"
    by (simp_all add: js_def)
  show ?thesis
    by (simp add: runLiveBenchmark_def linear_parser_def linear_server_def first_text_def
        linear_texts_not_empty linear_counts n)
qed

text \<open>
  C2, as the specification states it, fails on the live path: for an organization with
  one service the workflow total is 1375, which is \<open>426 * 3\<close> plus the three responses
  28, 29 and 40 and not the 1347 of the formula with two responses. On the static path no
  fair total is computed for a scenario of four tools.
\<close>

theorem fair_total_counts_three_responses:
  "map_sum id
     (\<lambda>r. (metaToolsWorkflow (fairComparison r),
           metaToolDefinitions (tokenMeasurements r) * 3
           + searchToolsResponse (tokenMeasurements r)
           + describeToolsResponse (tokenMeasurements r),
           listServicesResponse (tokenMeasurements r)))
     (runLiveBenchmark linear_parser linear_server linear_url linear_token)
     = Inr (1375, 1347, 28)
   \<and> (\<exists>r. fst (runBenchmark codeunit_encode (js ''Meta'') [(js ''Meta'', Catalog meta_catalog)]
             initial_state) = Inr r
        \<and> totalTools r = 4 \<and> printTerminal_fair [r] = None)"
proof -
  obtain r where r: "fst (runBenchmark codeunit_encode (js ''Meta'')
      [(js ''Meta'', Catalog meta_catalog)] initial_state) = Inr r"
    using runBenchmark_returns [OF codeunit_encode_returns,
        of "[(js ''Meta'', Catalog meta_catalog)]"] by auto
  have t: "totalTools r = 4"
    using result_triple [OF r] by (simp add: catalog_tools_def meta_catalog_tools META_TOOLS_def)
  then have "printTerminal_fair [r] = None"
    by (simp add: printTerminal_fair_None)
  then show ?thesis
    using r t by (simp add: linear_run live_result_fair)
qed

text \<open>
  C2, amended. On the live path, every run that returns a result has called the three
  meta-tools, and its workflow total is the cost of the tool set (the constant 426) times
  three plus three response payload costs: the heuristic estimates of the texts of the
  list-services, the search and the describe response that the calls returned. It is
  compared against the single estimate of the full expansion, 140 tokens for each tool
  that the services of the list-services response count; the list-services response costs
  at least one token. On the static path the fair total is computed only for the first
  scenario with more than 100 tools, as \<open>metaToolsTokens * 3 + 300\<close>, the constant 300
  standing for the search and the describe response together, and is compared against
  the \<open>fullExpansionTokens\<close> of that scenario; no fair total is computed when no scenario
  has more than 100 tools, and the results of every run of \<open>main\<close> that returns have such
  a scenario.
\<close>

theorem fair_workflow_totals:
  "(runLiveBenchmark parser server url token = Inr r \<longrightarrow>
      (\<exists>raw1 d raw2 sd raw3.
           callTool server (js ''list_services'') (JObj []) = Inr raw1
         \<and> parse_ListServices parser (first_text raw1) = Inr d
         \<and> callTool server (js ''search_tools'')
               (JObj [(js ''query'', JStr (js ''create'')), (js ''limit'', JNum 50)]) = Inr raw2
         \<and> parse_SearchTools parser (first_text raw2) = Inr sd
         \<and> callTool server (js ''describe_tools'')
               (JObj [(js ''tools'',
                  JArr (map (\<lambda>t. JStr (found_name t)) (take 5 (found_tools sd))))]) = Inr raw3
         \<and> listServicesResponse (tokenMeasurements r) = countTokens_live (first_text raw1)
         \<and> searchToolsResponse (tokenMeasurements r) = countTokens_live (first_text raw2)
         \<and> describeToolsResponse (tokenMeasurements r) = countTokens_live (first_text raw3)
         \<and> tools_total (tools_summary r) = sum_list (map toolCount (services d)))
       \<and> metaToolsWorkflow (fairComparison r)
           = 426 * 3
             + listServicesResponse (tokenMeasurements r)
             + searchToolsResponse (tokenMeasurements r)
             + describeToolsResponse (tokenMeasurements r)
       \<and> metaToolDefinitions (tokenMeasurements r) = 426
       \<and> fullExpansion (fairComparison r) = tools_total (tools_summary r) * 140
       \<and> fullExpansionEstimate (tokenMeasurements r) = tools_total (tools_summary r) * 140
       \<and> difference (fairComparison r)
           = fullExpansion (fairComparison r) - metaToolsWorkflow (fairComparison r)
       \<and> 1 \<le> listServicesResponse (tokenMeasurements r))
   \<and> (printTerminal_fair results = Some rep \<longrightarrow>
        (\<exists>pre r post. results = pre @ r # post \<and> (\<forall>p\<in>set pre. totalTools p \<le> 100)
           \<and> 100 < totalTools r
           \<and> fair_scenario rep = scenario r
           \<and> metaWorkflowTotal rep = metaToolsTokens r * 3 + 300
           \<and> fullWorkflowTotal rep = fullExpansionTokens r
           \<and> fair_savings rep
               = int (fullExpansionTokens r) - int (metaToolsTokens r * 3 + 300)))
   \<and> (printTerminal_fair results = None) = (\<forall>r\<in>set results. totalTools r \<le> 100)
   \<and> (fst (main encode dir) = Inr rs \<longrightarrow> printTerminal_fair rs \<noteq> None)"
  by (rule conjI, rule impI, erule live_fair_total,
      rule conjI, rule impI, erule printTerminal_fair_Some,
      rule conjI, rule printTerminal_fair_None,
      rule impI, erule main_prints_fair)

text \<open>
  The organization with one service: the three responses cost 28, 29 and 40 tokens and
  the service counts nine tools. And the results of \<open>main\<close> when the directory of samples
  cannot be listed: the first scenario has 90 tools, and the fair total is that of the
  second, the scenario of ten services.
\<close>

theorem fair_workflow_totals_witness:
  "(\<exists>r. runLiveBenchmark linear_parser linear_server linear_url linear_token = Inr r
      \<and> listServicesResponse (tokenMeasurements r) = countTokens_live linear_services_text
      \<and> countTokens_live linear_services_text = 28
      \<and> searchToolsResponse (tokenMeasurements r) = 29
      \<and> describeToolsResponse (tokenMeasurements r) = 40
      \<and> tools_total (tools_summary r) = 9
      \<and> metaToolsWorkflow (fairComparison r) = 1375
      \<and> fullExpansion (fairComparison r) = 1260
      \<and> difference (fairComparison r) = - 115)
   \<and> (\<exists>results rep.
        fst (main codeunit_encode \<lparr> readdirSync = Inl IOError, load_file = (\<lambda>f. Inl IOError) \<rparr>)
          = Inr results
      \<and> map totalTools results = [90, 245, 833]
      \<and> printTerminal_fair results = Some rep
      \<and> fair_scenario rep = js ''Large org (10 APIs)''
      \<and> metaWorkflowTotal rep = metaToolsTokens (results ! 1) * 3 + 300
      \<and> fullWorkflowTotal rep = fullExpansionTokens (results ! 1))"
proof -
  let ?d = "\<lparr> services =
             [\<lparr> service_name = js ''Linear'', slug = js ''linear'', toolCount = 9,
                 sampleTools = [] \<rparr>],
           services_total = 1 \<rparr>"
  let ?r = "live_result linear_url ?d 28 29 40"
  let ?dir = "\<lparr> readdirSync = Inl IOError, load_file = (\<lambda>f. Inl IOError) \<rparr>"
  have m: "listServicesResponse (tokenMeasurements ?r) = 28"
    "searchToolsResponse (tokenMeasurements ?r) = 29"
    "describeToolsResponse (tokenMeasurements ?r) = 40"
    "tools_total (tools_summary ?r) = 9"
    by (simp_all add: live_result_fair)
  have live: "metaToolsWorkflow (fairComparison ?r) = 1375
      \<and> fullExpansion (fairComparison ?r) = 1260
      \<and> difference (fairComparison ?r) = - 115"
    using fair_workflow_totals [of linear_parser linear_server linear_url linear_token ?r]
      linear_run m
    by simp
  have l: "fst (loadSampleSpecs ?dir) = []"
    by (simp add: loadSampleSpecs_def)
  obtain results where r: "fst (main codeunit_encode ?dir) = Inr results"
    using main_returns [OF codeunit_encode_returns, of ?dir] l by auto
  have sc: "map (\<lambda>sc. (fst sc, length (snd sc), length (catalog_tools (snd sc)))) (scenarios [])
      = [(js ''Medium org (5 APIs)'', 2, 90),
         (js ''Large org (10 APIs)'', 7, 245),
         (js ''Enterprise (20 APIs)'', 17, 833)]"
    by (simp add: scenarios_def medium_org_tools large_org_tools enterprise_tools)
       (simp add: synthetic_services_def)
  have "scenario_results codeunit_encode (scenarios []) = Inr results"
    using r l by (simp add: main_results)
  then have tri: "map (\<lambda>r. (scenario r, projectCount r, totalTools r)) results
      = [(js ''Medium org (5 APIs)'', 2, 90),
         (js ''Large org (10 APIs)'', 7, 245),
         (js ''Enterprise (20 APIs)'', 17, 833)]"
    unfolding sc [symmetric] by (rule scenario_results_triples)
  then have "length (map (\<lambda>r. (scenario r, projectCount r, totalTools r)) results) = 3"
    by simp
  then have "length results = Suc (Suc (Suc 0))"
    by simp
  then obtain r1 r2 r3 where rs: "results = [r1, r2, r3]"
    by (auto simp: length_Suc_conv)
  have t: "totalTools r1 = 90" "totalTools r2 = 245" "totalTools r3 = 833"
    and n: "scenario r2 = js ''Large org (10 APIs)''"
    using tri by (simp_all add: rs)
  have "printTerminal_fair results \<noteq> None"
    by (rule fair_workflow_totals [of linear_parser linear_server linear_url linear_token ?r
        results undefined codeunit_encode ?dir results,
        THEN conjunct2, THEN conjunct2, THEN conjunct2, THEN mp, OF r])
  then obtain rep where rep: "printTerminal_fair results = Some rep"
    by auto
  have first: "\<exists>pre x post. results = pre @ x # post \<and> (\<forall>p\<in>set pre. totalTools p \<le> 100)
      \<and> 100 < totalTools x
      \<and> fair_scenario rep = scenario x
      \<and> metaWorkflowTotal rep = metaToolsTokens x * 3 + 300
      \<and> fullWorkflowTotal rep = fullExpansionTokens x
      \<and> fair_savings rep = int (fullExpansionTokens x) - int (metaToolsTokens x * 3 + 300)"
    by (rule fair_workflow_totals [of linear_parser linear_server linear_url linear_token ?r
        results rep codeunit_encode ?dir results,
        THEN conjunct2, THEN conjunct1, THEN mp, OF rep])
  have sel: "find (\<lambda>r. totalTools r > 100) results = Some r2"
    by (simp add: rs t)
  have "fair_scenario rep = scenario r2 \<and> metaWorkflowTotal rep = metaToolsTokens r2 * 3 + 300
      \<and> fullWorkflowTotal rep = fullExpansionTokens r2"
    using rep sel by (auto simp: printTerminal_fair_def searchDescribeOverhead_def)
  then have static: "map totalTools results = [90, 245, 833]
      \<and> printTerminal_fair results = Some rep
      \<and> fair_scenario rep = js ''Large org (10 APIs)''
      \<and> metaWorkflowTotal rep = metaToolsTokens (results ! 1) * 3 + 300
      \<and> fullWorkflowTotal rep = fullExpansionTokens (results ! 1)"
    using rep by (simp add: rs t n)
  have live_all: "runLiveBenchmark linear_parser linear_server linear_url linear_token = Inr ?r
      \<and> listServicesResponse (tokenMeasurements ?r) = countTokens_live linear_services_text
      \<and> countTokens_live linear_services_text = 28
      \<and> searchToolsResponse (tokenMeasurements ?r) = 29
      \<and> describeToolsResponse (tokenMeasurements ?r) = 40
      \<and> tools_total (tools_summary ?r) = 9
      \<and> metaToolsWorkflow (fairComparison ?r) = 1375
      \<and> fullExpansion (fairComparison ?r) = 1260
      \<and> difference (fairComparison ?r) = - 115"
    using live m linear_run by (simp add: linear_counts)
  have a: "\<exists>r. runLiveBenchmark linear_parser linear_server linear_url linear_token = Inr r
      \<and> listServicesResponse (tokenMeasurements r) = countTokens_live linear_services_text
      \<and> countTokens_live linear_services_text = 28
      \<and> searchToolsResponse (tokenMeasurements r) = 29
      \<and> describeToolsResponse (tokenMeasurements r) = 40
      \<and> tools_total (tools_summary r) = 9
      \<and> metaToolsWorkflow (fairComparison r) = 1375
      \<and> fullExpansion (fairComparison r) = 1260
      \<and> difference (fairComparison r) = - 115"
    by (rule exI [where x = "?r"]) (rule live_all)
  have static_all: "fst (main codeunit_encode ?dir) = Inr results
      \<and> map totalTools results = [90, 245, 833]
      \<and> printTerminal_fair results = Some rep
      \<and> fair_scenario rep = js ''Large org (10 APIs)''
      \<and> metaWorkflowTotal rep = metaToolsTokens (results ! 1) * 3 + 300
      \<and> fullWorkflowTotal rep = fullExpansionTokens (results ! 1)"
    using r static by simp
  have b: "\<exists>results rep. fst (main codeunit_encode ?dir) = Inr results
      \<and> map totalTools results = [90, 245, 833]
      \<and> printTerminal_fair results = Some rep
      \<and> fair_scenario rep = js ''Large org (10 APIs)''
      \<and> metaWorkflowTotal rep = metaToolsTokens (results ! 1) * 3 + 300
      \<and> fullWorkflowTotal rep = fullExpansionTokens (results ! 1)"
    by (rule exI [where x = results], rule exI [where x = rep]) (rule static_all)
  show ?thesis
    using a b by (rule conjI)
qed

end
